theory Spec2Isabelle
  imports Main
begin

section \<open>The node fixture of \<open>pytest/node_plugin.py\<close>\<close>

subsection \<open>Python strings and the cache key\<close>

text \<open>
  \<^verbatim>\<open>sep.join(xs)\<close> of Python: the elements of \<open>xs\<close> with \<open>sep\<close> between
  neighbours, the empty string for the empty list.
\<close>

fun join :: "string \<Rightarrow> string list \<Rightarrow> string" where
  "join sep [] = []"
| "join sep [x] = x"
| "join sep (x # y # ys) = x @ sep @ join sep (y # ys)"

text \<open>
  The keyword arguments of a marker (\<^verbatim>\<open>deploy_marker.kwargs\<close>) are a Python dict:
  its items in declaration order, every name at most once. \<^verbatim>\<open>deploy_vm\<close> declares each
  of its parameters as \<^verbatim>\<open>str\<close>; a value is a string, or \<^verbatim>\<open>None\<close> for a parameter
  given without a value.
\<close>

type_synonym kwargs = "(string \<times> string option) list"

definition dict_values :: "('k \<times> 'v) list \<Rightarrow> 'v list" where
  "dict_values d = map snd d"

text \<open>
  \<^verbatim>\<open>filter(None, vs)\<close> keeps the values that are true in Python: \<^verbatim>\<open>None\<close> and the
  empty string are dropped, every other string is kept, in order.
\<close>

fun filter_None :: "string option list \<Rightarrow> string list" where
  "filter_None [] = []"
| "filter_None (None # vs) = filter_None vs"
| "filter_None (Some s # vs) = (if s = [] then filter_None vs else s # filter_None vs)"

text \<open>
  Line 171:
  \<^verbatim>\<open>key = "/".join(["node"] + list(filter(None, deploy_marker.kwargs.values())))\<close>
\<close>

definition cache_key :: "kwargs \<Rightarrow> string" where
  "cache_key kw = join ''/'' ([''node''] @ filter_None (dict_values kw))"


subsection \<open>Python dicts and the errors the fixture can raise\<close>

datatype error =
    AssertionError
  | AttributeError
  | KeyError string
  | IndexError
  | NameError string
  | TypeError
  | UnboundLocalError string
  | UnexpectedExit
  | FileNotFoundError
  | UnicodeDecodeError
  | ValueError

text \<open>
  A dict is the list of its items in insertion order. \<^verbatim>\<open>d[k] = v\<close> replaces the value
  of a key that is there and appends a new key at the end; \<^verbatim>\<open>d[k]\<close> raises
  \<^verbatim>\<open>KeyError\<close> for a key that is not there.
\<close>

fun dict_set :: "'k \<Rightarrow> 'v \<Rightarrow> ('k \<times> 'v) list \<Rightarrow> ('k \<times> 'v) list" where
  "dict_set k v [] = [(k, v)]"
| "dict_set k v ((k', v') # d) = (if k' = k then (k, v) # d else (k', v') # dict_set k v d)"

definition subscript :: "(string \<times> 'v) list \<Rightarrow> string \<Rightarrow> error + 'v" where
  "subscript d k = (case map_of d k of None \<Rightarrow> Inl (KeyError k) | Some v \<Rightarrow> Inr v)"

text \<open>A Deployment Descriptor: \<^verbatim>\<open>Dict[str, str]\<close>.\<close>

type_synonym descriptor = "(string \<times> string) list"

text \<open>\<^verbatim>\<open>if data:\<close> on the result of \<^verbatim>\<open>cache.get(key, None)\<close>: \<^verbatim>\<open>None\<close> and the empty
  dict are false.\<close>

fun truthy_data :: "descriptor option \<Rightarrow> bool" where
  "truthy_data None = False"
| "truthy_data (Some d) = (d \<noteq> [])"

subsection \<open>The cache of pytest\<close>

text \<open>\<^verbatim>\<open>s.split(sep)\<close> for a separator of one character.\<close>

fun str_split :: "char \<Rightarrow> string \<Rightarrow> string list" where
  "str_split sep [] = [[]]"
| "str_split sep (c # s) =
     (if c = sep then [] # str_split sep s
      else case str_split sep s of
             w # ws \<Rightarrow> (c # w) # ws
           | [] \<Rightarrow> [[c]])"

text \<open>
  \<^verbatim>\<open>request.config.cache\<close> keeps the value of a key as JSON in the file
  \<^verbatim>\<open>.pytest_cache/v/<key>\<close>: the key is read as a relative path, its components
  separated by \<^verbatim>\<open>/\<close>, empty components and \<^verbatim>\<open>.\<close> dropped. The keys of the fixture
  begin with \<^verbatim>\<open>node\<close>, so none is an absolute path. A component \<^verbatim>\<open>..\<close> would lead
  out of the directory it stands in; it is kept as a name here, so the model speaks for
  keys without one.
\<close>

type_synonym path = "string list"

definition getvaluepath :: "string \<Rightarrow> path" where
  "getvaluepath key = filter (\<lambda>c. c \<noteq> [] \<and> c \<noteq> ''.'') (str_split CHR ''/'' key)"

text \<open>
  The files below \<^verbatim>\<open>.pytest_cache/v\<close>, each with the value written to it:
  \<open>None\<close> is JSON \<^verbatim>\<open>null\<close>. The directories are the proper prefixes of the
  paths of the files.
\<close>

type_synonym cache_files = "(path \<times> descriptor option) list"

definition proper_prefix :: "path \<Rightarrow> path \<Rightarrow> bool" where
  "proper_prefix p q = (length p < length q \<and> take (length p) q = p)"

text \<open>
  A path can be a file when it is not the directory of the values itself, no file
  lies on the way to it and it is not a directory.
\<close>

definition storable :: "cache_files \<Rightarrow> path \<Rightarrow> bool" where
  "storable c p =
     (p \<noteq> [] \<and> list_all (\<lambda>q. \<not> proper_prefix q p \<and> \<not> proper_prefix p q) (map fst c))"

text \<open>
  \<^verbatim>\<open>cache.get(key, None)\<close>: the value read from the file of the key, \<^verbatim>\<open>None\<close> when
  the file cannot be opened.
\<close>

definition Cache_get :: "cache_files \<Rightarrow> string \<Rightarrow> descriptor option" where
  "Cache_get c key =
     (let p = getvaluepath key
      in if storable c p
         then (case map_of c p of None \<Rightarrow> None | Some v \<Rightarrow> v)
         else None)"

text \<open>
  What the file system answers when the directories on the way to a path are made and
  its file is opened for writing, given the files that are there: it takes the file; or
  it refuses with an \<^verbatim>\<open>OSError\<close> (a name longer than it allows, a directory that may
  not be written); or the path is no path for it and another error is raised before
  anything is written (a \<^verbatim>\<open>ValueError\<close> for a NUL character in a name). Which of the
  three is the environment's choice.
\<close>

datatype fs_answer = Written | Refused | Raised error

type_synonym file_system = "cache_files \<Rightarrow> path \<Rightarrow> fs_answer"

text \<open>
  \<^verbatim>\<open>cache.set(key, value)\<close>: the directories on the way are made and the value is
  written to the file of the key. When a directory cannot be made or the file cannot be
  opened, because the file system refuses or because the path cannot be a file beside
  the files that are there, pytest catches the \<^verbatim>\<open>OSError\<close>, warns, and nothing is
  stored. An error of another kind leaves \<^verbatim>\<open>cache.set\<close>.
\<close>

definition Cache_set ::
  "file_system \<Rightarrow> cache_files \<Rightarrow> string \<Rightarrow> descriptor option \<Rightarrow> error + cache_files" where
  "Cache_set fs c key v =
     (let p = getvaluepath key
      in case fs c p of
           Raised err \<Rightarrow> Inl err
         | Refused \<Rightarrow> Inr c
         | Written \<Rightarrow> Inr (if storable c p then dict_set p v c else c))"

subsection \<open>The store of dict objects\<close>

text \<open>
  The configuration (lines 27-37) is a dict whose \<^verbatim>\<open>"run"\<close> value is another dict
  object. Dict objects live in a store and are named by their address; a value held in a
  dict is a constant or the address of a dict.
\<close>

type_synonym addr = nat

datatype pyval = PBool bool | PInt int | PStr string | PRef addr

type_synonym pydict = "(string \<times> pyval) list"

type_synonym store = "pydict list"

definition alloc :: "store \<Rightarrow> pydict \<Rightarrow> addr \<times> store" where
  "alloc h d = (length h, h @ [d])"

text \<open>\<^verbatim>\<open>d.copy()\<close>: a new dict object with the same items; the values are not copied.\<close>

definition dict_copy :: "store \<Rightarrow> addr \<Rightarrow> addr \<times> store" where
  "dict_copy h a = alloc h (h ! a)"

text \<open>
  Module initialisation, lines 27-37: the inner dict is built first, then the dict bound
  to the global name \<^verbatim>\<open>config\<close>.
\<close>

definition config_addr :: addr where
  "config_addr = 1"

definition module_store :: store where
  "module_store =
     [[(''echo'', PBool True), (''in_stream'', PBool False), (''timeout'', PInt 300)],
      [(''run'', PRef 0)]]"

text \<open>Lines 42-43: \<^verbatim>\<open>invoke.Config(overrides=config)\<close> is handed the dict object bound
  to \<^verbatim>\<open>config\<close>, and \<^verbatim>\<open>local\<close> is the context of that configuration.\<close>

definition local_overrides :: addr where
  "local_overrides = config_addr"

subsection \<open>The cloud, the cache and the state of a test run\<close>

text \<open>
  \<^verbatim>\<open>deploy_vm\<close> and \<^verbatim>\<open>delete_vm\<close> run commands of the \<^verbatim>\<open>az\<close> CLI; what the CLI
  answers is the environment's choice. A call of either function is recorded, in order.
\<close>

datatype call = Deploy_vm string kwargs | Delete_vm string

fun is_deploy :: "call \<Rightarrow> bool" where
  "is_deploy (Deploy_vm _ _) = True"
| "is_deploy (Delete_vm _) = False"

fun is_delete :: "call \<Rightarrow> bool" where
  "is_delete (Delete_vm _) = True"
| "is_delete (Deploy_vm _ _) = False"

text \<open>
  The environment: the \<open>n\<close>-th value \<^verbatim>\<open>uuid4()\<close> produces, printed; what line 110 parses
  from the output of \<^verbatim>\<open>az vm create\<close> (or the error raised on the way there) and whether
  \<^verbatim>\<open>az group delete\<close> fails, each after the calls made so far; and the file system
  below the cache directory.
\<close>

record extern =
  uuid4 :: "nat \<Rightarrow> string"
  vm_create :: "call list \<Rightarrow> string \<Rightarrow> kwargs \<Rightarrow> error + descriptor"
  group_delete :: "call list \<Rightarrow> string \<Rightarrow> error option"
  cache_write :: file_system

text \<open>
  The state: the files of \<^verbatim>\<open>request.config.cache\<close> (\<open>None\<close> when the cache plugin is
  off and the attribute is \<^verbatim>\<open>None\<close>), the calls made, the number of uuids drawn, and
  the store.
\<close>

record state =
  cache :: "cache_files option"
  calls :: "call list"
  uuid_count :: nat
  heap :: store

text \<open>What the fixture reads of the test: the keyword arguments of the closest
  \<^verbatim>\<open>deploy\<close> marker, the arguments of the closest \<^verbatim>\<open>connect\<close> marker, and the
  \<^verbatim>\<open>keep_vms\<close> option of the run.\<close>

record request =
  deploy_marker :: "kwargs option"
  connect_marker :: "string list option"
  keep_vms :: bool

text \<open>Lines 72-112. The host is the \<^verbatim>\<open>publicIpAddress\<close> of the parsed data.\<close>

definition deploy_vm :: "extern \<Rightarrow> string \<Rightarrow> kwargs \<Rightarrow> state \<Rightarrow> (error + string \<times> descriptor) \<times> state" where
  "deploy_vm x name kw s =
     (let s' = s\<lparr>calls := calls s @ [Deploy_vm name kw]\<rparr> in
      case vm_create x (calls s) name kw of
        Inl err \<Rightarrow> (Inl err, s')
      | Inr data \<Rightarrow>
          (case subscript data ''publicIpAddress'' of
             Inl err \<Rightarrow> (Inl err, s')
           | Inr host \<Rightarrow> (Inr (host, data), s')))"

text \<open>Lines 115-119.\<close>

definition delete_vm :: "extern \<Rightarrow> string \<Rightarrow> state \<Rightarrow> (error + unit) \<times> state" where
  "delete_vm x name s =
     (let s' = s\<lparr>calls := calls s @ [Delete_vm name]\<rparr> in
      case group_delete x (calls s) name of
        Some err \<Rightarrow> (Inl err, s')
      | None \<Rightarrow> (Inr (), s'))"

text \<open>\<^verbatim>\<open>request.config.cache.set(key, value)\<close>.\<close>

definition cache_set ::
  "extern \<Rightarrow> string \<Rightarrow> descriptor option \<Rightarrow> state \<Rightarrow> (error + unit) \<times> state" where
  "cache_set x key v s =
     (case cache s of
        None \<Rightarrow> (Inl AttributeError, s)
      | Some c \<Rightarrow>
          (case Cache_set (cache_write x) c key v of
             Inl err \<Rightarrow> (Inl err, s)
           | Inr c' \<Rightarrow> (Inr (), s\<lparr>cache := Some c'\<rparr>)))"


subsection \<open>The fixture \<open>node\<close>\<close>

text \<open>
  A \<^verbatim>\<open>Node\<close>: the host the connection was made for, the dict object its
  \<^verbatim>\<open>fabric.Config\<close> was given as overrides, the \<^verbatim>\<open>inline_ssh_env\<close> flag, and the two
  attributes of lines 125-126.
\<close>

record node =
  node_host :: string
  node_config :: addr
  node_inline_ssh_env :: bool
  node_name :: string
  node_data :: descriptor

text \<open>
  The local variables of the generator when it yields. \<^verbatim>\<open>key\<close> is assigned on one
  branch only: \<open>None\<close> is the unbound variable.
\<close>

record frame =
  fr_key :: "string option"
  fr_name :: string
  fr_host :: string
  fr_data :: descriptor
  fr_node :: node

text \<open>Lines 176-182, the cache miss.\<close>

definition cache_miss :: "extern \<Rightarrow> string \<Rightarrow> kwargs \<Rightarrow> state \<Rightarrow> (error + descriptor) \<times> state" where
  "cache_miss x key kw s =
     (let name = ''pytest-'' @ uuid4 x (uuid_count s);
          s1 = s\<lparr>uuid_count := Suc (uuid_count s)\<rparr>
      in case deploy_vm x name kw s1 of
           (Inl err, s2) \<Rightarrow> (Inl err, s2)
         | (Inr (host, data), s2) \<Rightarrow>
             (let data1 = dict_set ''name'' name data;
                  data2 = dict_set ''host'' host data1
              in case cache_set x key (Some data2) s2 of
                   (Inl err, s3) \<Rightarrow> (Inl err, s3)
                 | (Inr _, s3) \<Rightarrow> (Inr data2, s3)))"

text \<open>Lines 169-184, the branch of the \<^verbatim>\<open>deploy\<close> marker: the values of \<^verbatim>\<open>key\<close>,
  \<^verbatim>\<open>name\<close>, \<^verbatim>\<open>host\<close> and \<^verbatim>\<open>data\<close> at its end.\<close>

definition provision_or_reuse ::
  "extern \<Rightarrow> kwargs \<Rightarrow> state \<Rightarrow> (error + string option \<times> string \<times> string \<times> descriptor) \<times> state" where
  "provision_or_reuse x kw s =
     (let key = cache_key kw in
      case cache s of
        None \<Rightarrow> (Inl AssertionError, s)
      | Some c \<Rightarrow>
          (case (if truthy_data (Cache_get c key) then (Inr (the (Cache_get c key)), s)
                 else cache_miss x key kw s) of
             (Inl err, s1) \<Rightarrow> (Inl err, s1)
           | (Inr data, s1) \<Rightarrow>
               (case subscript data ''name'' of
                  Inl err \<Rightarrow> (Inl err, s1)
                | Inr name \<Rightarrow>
                    (case subscript data ''host'' of
                       Inl err \<Rightarrow> (Inl err, s1)
                     | Inr host \<Rightarrow> (Inr (Some key, name, host, data), s1)))))"

text \<open>Lines 160-193: the three branches.\<close>

definition select_node ::
  "extern \<Rightarrow> request \<Rightarrow> state \<Rightarrow> (error + string option \<times> string \<times> string \<times> descriptor) \<times> state" where
  "select_node x req s =
     (case deploy_marker req of
        Some kw \<Rightarrow> provision_or_reuse x kw s
      | None \<Rightarrow>
          (case connect_marker req of
             Some args \<Rightarrow>
               (case args of
                  [] \<Rightarrow> (Inl IndexError, s)
                | host # _ \<Rightarrow> (Inr (None, ''pre-deployed:'' @ host, host, []), s))
           | None \<Rightarrow> (Inr (None, ''localhost'', ''localhost'', []), s)))"

definition ssh_path :: string where
  "ssh_path = ''/sbin:/usr/sbin:/usr/local/sbin:/bin:/usr/bin:/usr/local/bin''"

text \<open>
  Lines 196-200. The right-hand side is evaluated first, then \<^verbatim>\<open>ssh_config["run"]\<close>,
  then the item is stored in the dict object that value names.
\<close>

definition make_ssh_config :: "store \<Rightarrow> (error + addr) \<times> store" where
  "make_ssh_config h =
     (if \<not> config_addr < length h then (Inl (NameError ''config''), h)
      else
        let (ssh_config, h1) = dict_copy h config_addr;
            (env, h2) = alloc h1 [(''PATH'', PStr ssh_path)]
        in case subscript (h2 ! ssh_config) ''run'' of
             Inl err \<Rightarrow> (Inl err, h2)
           | Inr (PRef r) \<Rightarrow>
               (if r < length h2
                then (Inr ssh_config, h2[r := dict_set ''env'' (PRef env) (h2 ! r)])
                else (Inl TypeError, h2))
           | Inr _ \<Rightarrow> (Inl TypeError, h2))"

text \<open>Lines 160-205: the fixture up to its \<^verbatim>\<open>yield\<close>.\<close>

definition node_setup :: "extern \<Rightarrow> request \<Rightarrow> state \<Rightarrow> (error + frame) \<times> state" where
  "node_setup x req s =
     (case select_node x req s of
        (Inl err, s1) \<Rightarrow> (Inl err, s1)
      | (Inr (key, name, host, data), s1) \<Rightarrow>
          (case make_ssh_config (heap s1) of
             (Inl err, h) \<Rightarrow> (Inl err, s1\<lparr>heap := h\<rparr>)
           | (Inr ssh_config, h) \<Rightarrow>
               (Inr \<lparr>fr_key = key, fr_name = name, fr_host = host, fr_data = data,
                     fr_node = \<lparr>node_host = host, node_config = ssh_config,
                                node_inline_ssh_env = True, node_name = name,
                                node_data = data\<rparr>\<rparr>,
                s1\<lparr>heap := h\<rparr>)))"

text \<open>
  Lines 207-211: the fixture after its \<^verbatim>\<open>yield\<close>. \<^verbatim>\<open>and\<close> evaluates \<^verbatim>\<open>key\<close> only
  when \<^verbatim>\<open>not keep_vms\<close> is true.
\<close>

definition node_teardown :: "extern \<Rightarrow> request \<Rightarrow> frame \<Rightarrow> state \<Rightarrow> (error + unit) \<times> state" where
  "node_teardown x req fr s =
     (if keep_vms req then (Inr (), s)
      else
        case fr_key fr of
          None \<Rightarrow> (Inl (UnboundLocalError ''key''), s)
        | Some key \<Rightarrow>
            (if key = [] then (Inr (), s)
             else
               case delete_vm x (fr_name fr) s of
                 (Inl err, s1) \<Rightarrow> (Inl err, s1)
               | (Inr _, s1) \<Rightarrow>
                   (case cache s1 of
                      None \<Rightarrow> (Inl AssertionError, s1)
                    | Some _ \<Rightarrow> cache_set x key None s1)))"

text \<open>The whole generator, with a test that leaves the state as it is.\<close>

definition node_fixture :: "extern \<Rightarrow> request \<Rightarrow> state \<Rightarrow> (error + node) \<times> state" where
  "node_fixture x req s =
     (case node_setup x req s of
        (Inl err, s1) \<Rightarrow> (Inl err, s1)
      | (Inr fr, s1) \<Rightarrow>
          (case node_teardown x req fr s1 of
             (Inl err, s2) \<Rightarrow> (Inl err, s2)
           | (Inr _, s2) \<Rightarrow> (Inr (fr_node fr), s2)))"


text \<open>
  The global \<^verbatim>\<open>config\<close> as module initialisation leaves it and every run of the
  fixture keeps it: a dict object whose \<^verbatim>\<open>"run"\<close> item is a dict object.
\<close>

definition config_ok :: "store \<Rightarrow> bool" where
  "config_ok h =
     (config_addr < length h \<and>
      (case map_of (h ! config_addr) ''run'' of Some (PRef r) \<Rightarrow> r < length h | _ \<Rightarrow> False))"

subsection \<open>Running commands on a \<open>Node\<close>\<close>

type_synonym environ = "(string \<times> string) list"

text \<open>Keyword arguments of \<^verbatim>\<open>run\<close>: flags, numbers, strings, and the \<^verbatim>\<open>env\<close> dict.\<close>

datatype argval = ABool bool | AInt int | AStr string | AEnv environ

type_synonym run_kwargs = "(string \<times> argval) list"

datatype runner = Local | Remote

text \<open>A call of \<^verbatim>\<open>run\<close> as the runner gets it: which runner, the configuration of
  the context, the command and the keyword arguments.\<close>

record run_call =
  rc_runner :: runner
  rc_config :: addr
  rc_command :: string
  rc_kwargs :: run_kwargs

text \<open>\<^verbatim>\<open>invoke.Context.run\<close> runs the command on this machine, \<^verbatim>\<open>fabric.Connection.run\<close>
  on the host; both with the configuration of the object they are called on.\<close>

definition Context_run :: "node \<Rightarrow> string \<Rightarrow> run_kwargs \<Rightarrow> run_call" where
  "Context_run n command kwargs =
     \<lparr>rc_runner = Local, rc_config = node_config n, rc_command = command, rc_kwargs = kwargs\<rparr>"

definition Connection_run :: "node \<Rightarrow> string \<Rightarrow> run_kwargs \<Rightarrow> run_call" where
  "Connection_run n command kwargs =
     \<lparr>rc_runner = Remote, rc_config = node_config n, rc_command = command, rc_kwargs = kwargs\<rparr>"

text \<open>
  Lines 128-130. The call names \<^verbatim>\<open>replace_env\<close> and \<^verbatim>\<open>env\<close> itself, so a caller who
  passes either gets the \<^verbatim>\<open>TypeError\<close> of a keyword given twice.
\<close>

definition Node_local :: "node \<Rightarrow> string \<Rightarrow> run_kwargs \<Rightarrow> error + run_call" where
  "Node_local n command kwargs =
     (if ''replace_env'' \<in> set (map fst kwargs) \<or> ''env'' \<in> set (map fst kwargs)
      then Inl TypeError
      else Inr (Context_run n command
                  ([(''replace_env'', ABool False), (''env'', AEnv [])] @ kwargs)))"

text \<open>The string items of a dict object.\<close>

fun str_items :: "pydict \<Rightarrow> environ" where
  "str_items [] = []"
| "str_items ((k, PStr v) # d) = (k, v) # str_items d"
| "str_items (_ # d) = str_items d"

text \<open>
  \<^verbatim>\<open>config.run.env\<close> of a configuration made from the overrides at an address: the
  \<^verbatim>\<open>env\<close> dict of the \<^verbatim>\<open>run\<close> overrides when there is one, the library's default
  \<^verbatim>\<open>{}\<close> otherwise.
\<close>

definition config_run_env :: "store \<Rightarrow> addr \<Rightarrow> environ" where
  "config_run_env h a =
     (if \<not> a < length h then []
      else case map_of (h ! a) ''run'' of
             Some (PRef r) \<Rightarrow>
               (if \<not> r < length h then []
                else case map_of (h ! r) ''env'' of
                       Some (PRef e) \<Rightarrow> (if e < length h then str_items (h ! e) else [])
                     | _ \<Rightarrow> [])
           | _ \<Rightarrow> [])"

text \<open>
  The \<^verbatim>\<open>env\<close> option a runner works with: a keyword argument of the call wins over the
  value of the configuration.
\<close>

definition run_env :: "store \<Rightarrow> run_call \<Rightarrow> error + environ" where
  "run_env h c =
     (case map_of (rc_kwargs c) ''env'' of
        None \<Rightarrow> Inr (config_run_env h (rc_config c))
      | Some (AEnv e) \<Rightarrow> Inr e
      | Some _ \<Rightarrow> Inl TypeError)"

text \<open>
  The environment of a local process: \<^verbatim>\<open>env\<close> alone when \<^verbatim>\<open>replace_env\<close> is set,
  \<^verbatim>\<open>dict(os.environ, **env)\<close> otherwise.
\<close>

definition generate_env :: "environ \<Rightarrow> environ \<Rightarrow> bool \<Rightarrow> environ" where
  "generate_env os_environ env replace_env =
     (if replace_env then env else fold (\<lambda>(k, v). dict_set k v) env os_environ)"

text \<open>
  The \<^verbatim>\<open>replace_env\<close> option a runner works with: the keyword argument of the call,
  taken as a truth value, or else the value of the configuration.
\<close>

fun truthy_arg :: "argval \<Rightarrow> bool" where
  "truthy_arg (ABool b) = b"
| "truthy_arg (AInt i) = (i \<noteq> 0)"
| "truthy_arg (AStr s) = (s \<noteq> [])"
| "truthy_arg (AEnv e) = (e \<noteq> [])"

definition run_replace_env :: "bool \<Rightarrow> run_call \<Rightarrow> bool" where
  "run_replace_env config_replace_env c =
     (case map_of (rc_kwargs c) ''replace_env'' of
        None \<Rightarrow> config_replace_env
      | Some v \<Rightarrow> truthy_arg v)"

text \<open>The environment of the process a local run starts.\<close>

definition local_process_env :: "environ \<Rightarrow> bool \<Rightarrow> store \<Rightarrow> run_call \<Rightarrow> error + environ" where
  "local_process_env os_environ config_replace_env h c =
     (case run_env h c of
        Inl err \<Rightarrow> Inl err
      | Inr env \<Rightarrow> Inr (generate_env os_environ env (run_replace_env config_replace_env c)))"

subsection \<open>Boot diagnostics\<close>

text \<open>Lines 135-137, the body of \<^verbatim>\<open>get_boot_diagnostics\<close>: one attempt.\<close>

definition boot_diagnostics_call :: "node \<Rightarrow> error + run_call" where
  "boot_diagnostics_call n =
     Node_local n
       (''az vm boot-diagnostics get-boot-log -n '' @ node_name n @ '' -g '' @ node_name n
          @ ''-rg'')
       []"

text \<open>
  What the attempts meet: what the \<open>i\<close>-th run of the command gives, its output or the
  error it raises, and how many milliseconds the \<open>i\<close>-th attempt takes.
\<close>

record attempts =
  run_result :: "nat \<Rightarrow> run_call \<Rightarrow> error + string"
  run_millis :: "nat \<Rightarrow> nat"

definition attempt :: "attempts \<Rightarrow> node \<Rightarrow> nat \<Rightarrow> error + string" where
  "attempt a n i =
     (case boot_diagnostics_call n of
        Inl err \<Rightarrow> Inl err
      | Inr c \<Rightarrow> run_result a i c)"

text \<open>
  Modelled from the spec: the waits of \<^verbatim>\<open>wait_exponential()\<close>, line 132. The decorator
  is the tenacity library's, which is not among the sources. The spec has a backoff that
  is "exponential", "starting small and capped"; the call gives no arguments, so the
  first wait and the cap are the library's own and are parameters here, in milliseconds.
  The wait after the \<open>i\<close>-th failed attempt doubles with \<open>i\<close> up to the cap.
\<close>

record backoff =
  first_wait :: nat
  max_wait :: nat

definition wait_exponential :: "backoff \<Rightarrow> nat \<Rightarrow> nat" where
  "wait_exponential b i = min (max_wait b) (first_wait b * 2 ^ i)"

text \<open>
  Modelled from the spec: \<^verbatim>\<open>stop_after_delay(60)\<close>, line 132, of the same library. The
  spec has the fetch "abandoning after 60 seconds total": no further attempt once that
  many seconds have passed since the first attempt began.
\<close>

definition stop_after_delay :: "nat \<Rightarrow> nat \<Rightarrow> bool" where
  "stop_after_delay seconds elapsed = (seconds * 1000 \<le> elapsed)"

text \<open>
  Modelled from the spec: the loop of \<^verbatim>\<open>@retry\<close>, line 132, of the same library. The
  spec: the fetch "retries with exponential backoff", "abandoning after 60 seconds total
  and surfacing the last failure". Attempt \<open>i\<close> begins \<open>started\<close> milliseconds after the
  first one began; a result is returned; after a failure the loop gives up with that
  failure when the delay has passed, and otherwise sleeps the wait and tries again. The
  value is the outcome and the waits slept, in order. With waits of no length and
  attempts that take no time the loop never ends: that is \<open>None\<close>.
\<close>

partial_function (option) retry ::
  "backoff \<Rightarrow> nat \<Rightarrow> (nat \<Rightarrow> error + 'a) \<Rightarrow> (nat \<Rightarrow> nat) \<Rightarrow> nat \<Rightarrow> nat
     \<Rightarrow> ((error + 'a) \<times> nat list) option" where
  "retry b seconds result millis i started =
     (case result i of
        Inr v \<Rightarrow> Some (Inr v, [])
      | Inl err \<Rightarrow>
          if stop_after_delay seconds (started + millis i) then Some (Inl err, [])
          else Option.bind
                 (retry b seconds result millis (Suc i)
                    (started + millis i + wait_exponential b i))
                 (\<lambda>(r, sleeps). Some (r, wait_exponential b i # sleeps)))"

text \<open>Lines 132-137: the decorated method.\<close>

definition get_boot_diagnostics ::
  "backoff \<Rightarrow> attempts \<Rightarrow> node \<Rightarrow> ((error + string) \<times> nat list) option" where
  "get_boot_diagnostics b a n = retry b 60 (attempt a n) (run_millis a) 0 0"

text \<open>The time at which attempt \<open>i\<close> ends when every attempt before it failed and was
  retried, in milliseconds since the first attempt began.\<close>

fun finished_at :: "backoff \<Rightarrow> (nat \<Rightarrow> nat) \<Rightarrow> nat \<Rightarrow> nat" where
  "finished_at b millis 0 = millis 0"
| "finished_at b millis (Suc i) =
     finished_at b millis i + wait_exponential b i + millis (Suc i)"

subsection \<open>Reading a remote file\<close>

text \<open>
  Bytes are numbers below 256, a \<^verbatim>\<open>str\<close> is the list of its code points. Files are
  named by their path, on this machine and on the host.
\<close>

type_synonym bytes = "nat list"

type_synonym pystr = "nat list"

record filesystems =
  local_files :: "(string \<times> bytes) list"
  remote_files :: "(string \<times> bytes) list"

text \<open>
  \<^verbatim>\<open>bytes.decode("utf-8")\<close>, strict: no overlong form, no surrogate, nothing above
  U+10FFFF, no truncated sequence; \<open>None\<close> is the \<^verbatim>\<open>UnicodeDecodeError\<close>.
\<close>

definition continuation :: "nat \<Rightarrow> bool" where
  "continuation b = (128 \<le> b \<and> b \<le> 191)"

fun utf8_decode :: "bytes \<Rightarrow> pystr option" where
  "utf8_decode [] = Some []"
| "utf8_decode (b0 # bs) =
     (if b0 < 128 then map_option (\<lambda>s. b0 # s) (utf8_decode bs)
      else if 194 \<le> b0 \<and> b0 \<le> 223 then
        (case bs of
           b1 # r \<Rightarrow>
             (if continuation b1
              then map_option (\<lambda>s. ((b0 - 192) * 64 + (b1 - 128)) # s) (utf8_decode r)
              else None)
         | _ \<Rightarrow> None)
      else if 224 \<le> b0 \<and> b0 \<le> 239 then
        (case bs of
           b1 # b2 # r \<Rightarrow>
             (if continuation b1 \<and> continuation b2
                 \<and> (b0 = 224 \<longrightarrow> 160 \<le> b1) \<and> (b0 = 237 \<longrightarrow> b1 \<le> 159)
              then map_option
                     (\<lambda>s. ((b0 - 224) * 4096 + (b1 - 128) * 64 + (b2 - 128)) # s)
                     (utf8_decode r)
              else None)
         | _ \<Rightarrow> None)
      else if 240 \<le> b0 \<and> b0 \<le> 244 then
        (case bs of
           b1 # b2 # b3 # r \<Rightarrow>
             (if continuation b1 \<and> continuation b2 \<and> continuation b3
                 \<and> (b0 = 240 \<longrightarrow> 144 \<le> b1) \<and> (b0 = 244 \<longrightarrow> b1 \<le> 143)
              then map_option
                     (\<lambda>s. ((b0 - 240) * 262144 + (b1 - 128) * 4096 + (b2 - 128) * 64
                           + (b3 - 128)) # s)
                     (utf8_decode r)
              else None)
         | _ \<Rightarrow> None)
      else None)"

text \<open>\<^verbatim>\<open>str.isspace\<close> of one code point.\<close>

definition isspace :: "nat \<Rightarrow> bool" where
  "isspace c =
     ((9 \<le> c \<and> c \<le> 13) \<or> (28 \<le> c \<and> c \<le> 32) \<or> c = 133 \<or> c = 160 \<or> c = 5760
      \<or> (8192 \<le> c \<and> c \<le> 8202) \<or> c = 8232 \<or> c = 8233 \<or> c = 8239 \<or> c = 8287
      \<or> c = 12288)"

definition lstrip :: "pystr \<Rightarrow> pystr" where
  "lstrip s = dropWhile isspace s"

definition rstrip :: "pystr \<Rightarrow> pystr" where
  "rstrip s = rev (dropWhile isspace (rev s))"

text \<open>\<^verbatim>\<open>str.strip()\<close> removes whitespace at both ends.\<close>

definition strip :: "pystr \<Rightarrow> pystr" where
  "strip s = rstrip (lstrip s)"

text \<open>
  \<^verbatim>\<open>self.get(path, buf)\<close> with a file-like \<^verbatim>\<open>buf\<close>: the bytes of the remote file are
  written to the buffer.
\<close>

definition Connection_get ::
  "string \<Rightarrow> bytes \<Rightarrow> filesystems \<Rightarrow> (error + bytes) \<times> filesystems" where
  "Connection_get path buf fs =
     (case map_of (remote_files fs) path of
        None \<Rightarrow> (Inl FileNotFoundError, fs)
      | Some content \<Rightarrow> (Inr (buf @ content), fs))"

text \<open>Lines 143-147.\<close>

definition cat :: "string \<Rightarrow> filesystems \<Rightarrow> (error + pystr) \<times> filesystems" where
  "cat path fs =
     (case Connection_get path [] fs of
        (Inl err, fs1) \<Rightarrow> (Inl err, fs1)
      | (Inr buf, fs1) \<Rightarrow>
          (case utf8_decode buf of
             None \<Rightarrow> (Inl UnicodeDecodeError, fs1)
           | Some text \<Rightarrow> (Inr (strip text), fs1)))"

text \<open>
  What the specification says \<^verbatim>\<open>fetch_text\<close> returns: the content decoded, with
  trailing whitespace trimmed.
\<close>

definition spec_fetch_text :: "bytes \<Rightarrow> pystr option" where
  "spec_fetch_text content = map_option rstrip (utf8_decode content)"

subsection \<open>Example inputs\<close>

text \<open>
  A cloud that answers every \<^verbatim>\<open>az vm create\<close> with one address and deletes without
  error, a test marked \<^verbatim>\<open>deploy(vm_image="UbuntuLTS", setup="")\<close>, a test marked
  \<^verbatim>\<open>connect("203.0.113.5")\<close>, and the state of a run before and after the first
  deployment.
\<close>

abbreviation example_extern :: extern where
  "example_extern \<equiv>
     \<lparr>uuid4 = (\<lambda>n. ''6f1c''),
      vm_create = (\<lambda>cs name kw. Inr [(''publicIpAddress'', ''10.0.0.4'')]),
      group_delete = (\<lambda>cs name. None),
      cache_write = (\<lambda>c p. Written)\<rparr>"

abbreviation example_kwargs :: kwargs where
  "example_kwargs \<equiv> [(''vm_image'', Some ''UbuntuLTS''), (''setup'', Some [])]"

abbreviation deploy_request :: "bool \<Rightarrow> request" where
  "deploy_request keep \<equiv>
     \<lparr>deploy_marker = Some example_kwargs, connect_marker = None, keep_vms = keep\<rparr>"

abbreviation connect_request :: request where
  "connect_request \<equiv>
     \<lparr>deploy_marker = None, connect_marker = Some [''203.0.113.5''], keep_vms = False\<rparr>"

abbreviation fresh_state :: state where
  "fresh_state \<equiv>
     \<lparr>cache = Some [], calls = [], uuid_count = 0, heap = module_store\<rparr>"

abbreviation cached_descriptor :: descriptor where
  "cached_descriptor \<equiv>
     [(''publicIpAddress'', ''10.0.0.4''), (''name'', ''pytest-6f1c''), (''host'', ''10.0.0.4'')]"

abbreviation cached_state :: state where
  "cached_state \<equiv>
     \<lparr>cache = Some [([''node'', ''UbuntuLTS''], Some cached_descriptor)],
      calls = [Deploy_vm ''pytest-6f1c'' example_kwargs], uuid_count = 1,
      heap = module_store\<rparr>"

text \<open>
  A cloud whose \<^verbatim>\<open>uuid4\<close> gives two different values, one whose
  \<^verbatim>\<open>az group delete\<close> fails, and a cache directory that may not be written; a test
  marked \<^verbatim>\<open>deploy()\<close>, and the state such a test leaves once its teardown has
  written \<^verbatim>\<open>null\<close> under the key \<^verbatim>\<open>node\<close>.
\<close>

definition two_uuid_extern :: extern where
  "two_uuid_extern =
     \<lparr>uuid4 = (\<lambda>n. if n = 0 then ''6f1c'' else ''9b2e''),
      vm_create = (\<lambda>cs name kw. Inr [(''publicIpAddress'', ''10.0.0.4'')]),
      group_delete = (\<lambda>cs name. None),
      cache_write = (\<lambda>c p. Written)\<rparr>"

definition failing_delete_extern :: extern where
  "failing_delete_extern =
     \<lparr>uuid4 = (\<lambda>n. ''6f1c''),
      vm_create = (\<lambda>cs name kw. Inr [(''publicIpAddress'', ''10.0.0.4'')]),
      group_delete = (\<lambda>cs name. Some UnexpectedExit),
      cache_write = (\<lambda>c p. Written)\<rparr>"

definition refusing_extern :: extern where
  "refusing_extern =
     \<lparr>uuid4 = (\<lambda>n. ''6f1c''),
      vm_create = (\<lambda>cs name kw. Inr [(''publicIpAddress'', ''10.0.0.4'')]),
      group_delete = (\<lambda>cs name. None),
      cache_write = (\<lambda>c p. Refused)\<rparr>"

abbreviation bare_deploy_request :: request where
  "bare_deploy_request \<equiv> \<lparr>deploy_marker = Some [], connect_marker = None, keep_vms = False\<rparr>"

abbreviation collided_state :: state where
  "collided_state \<equiv>
     \<lparr>cache = Some [([''node''], None)], calls = [], uuid_count = 0, heap = module_store\<rparr>"

definition counting_extern :: extern where
  "counting_extern =
     \<lparr>uuid4 = (\<lambda>n. ''6f1c-'' @ replicate n (CHR ''0'')),
      vm_create = (\<lambda>cs name kw. Inr [(''publicIpAddress'', ''10.0.0.4'')]),
      group_delete = (\<lambda>cs name. None),
      cache_write = (\<lambda>c p. Written)\<rparr>"

text \<open>
  A file system that takes every name but one with a NUL character in it, and a test
  marked \<^verbatim>\<open>deploy\<close> whose \<^verbatim>\<open>setup\<close> value is \<^verbatim>\<open>a\<close> followed by a NUL character.
\<close>

definition strict_extern :: extern where
  "strict_extern =
     \<lparr>uuid4 = (\<lambda>n. ''6f1c''),
      vm_create = (\<lambda>cs name kw. Inr [(''publicIpAddress'', ''10.0.0.4'')]),
      group_delete = (\<lambda>cs name. None),
      cache_write = (\<lambda>c p. if list_ex (\<lambda>n. CHR 0x00 \<in> set n) p then Raised ValueError
                             else Written)\<rparr>"

abbreviation nul_kwargs :: kwargs where
  "nul_kwargs \<equiv> [(''setup'', Some [CHR ''a'', CHR 0x00])]"

abbreviation nul_deploy_request :: request where
  "nul_deploy_request \<equiv>
     \<lparr>deploy_marker = Some nul_kwargs, connect_marker = None, keep_vms = False\<rparr>"

text \<open>
  A deployed node, a backoff of one second doubling up to thirty, and a command that
  fails twice and then prints the log, each run taking half a second.
\<close>

abbreviation example_node :: node where
  "example_node \<equiv>
     \<lparr>node_host = ''10.0.0.4'', node_config = 2, node_inline_ssh_env = True,
      node_name = ''pytest-6f1c'', node_data = cached_descriptor\<rparr>"

abbreviation example_backoff :: backoff where
  "example_backoff \<equiv> \<lparr>first_wait = 1000, max_wait = 30000\<rparr>"

abbreviation flaky_attempts :: attempts where
  "flaky_attempts \<equiv>
     \<lparr>run_result = (\<lambda>i c. if i < 2 then Inl UnexpectedExit else Inr ''boot log''),
      run_millis = (\<lambda>i. 500)\<rparr>"

section \<open>Properties\<close>

subsection \<open>The cache key\<close>

lemma takeWhile_sep: "c \<notin> set x \<Longrightarrow> takeWhile (\<lambda>a. a \<noteq> c) (x @ c # r) = x"
  by (induction x) auto

lemma dropWhile_sep: "c \<notin> set x \<Longrightarrow> dropWhile (\<lambda>a. a \<noteq> c) (x @ c # r) = c # r"
  by (induction x) auto

lemma sep_split_unique:
  assumes "c \<notin> set x" "c \<notin> set y" "x @ c # r = y @ c # r'"
  shows "x = y \<and> r = r'"
proof -
  have "takeWhile (\<lambda>a. a \<noteq> c) (x @ c # r) = takeWhile (\<lambda>a. a \<noteq> c) (y @ c # r')"
    and "dropWhile (\<lambda>a. a \<noteq> c) (x @ c # r) = dropWhile (\<lambda>a. a \<noteq> c) (y @ c # r')"
    using assms(3) by simp_all
  then show ?thesis
    using assms(1,2) by (simp add: takeWhile_sep dropWhile_sep)
qed

lemma join_Cons: "ys \<noteq> [] \<Longrightarrow> join [c] (x # ys) = x @ c # join [c] ys"
  by (cases ys) simp_all

text \<open>Joining is injective on non-empty lists of strings without the separator.\<close>

lemma join_inj:
  assumes "\<forall>x \<in> set xs \<union> set ys. c \<notin> set x" "xs \<noteq> []" "ys \<noteq> []"
    "join [c] xs = join [c] ys"
  shows "xs = ys"
  using assms
proof (induction xs arbitrary: ys)
  case Nil
  then show ?case by simp
next
  case (Cons x xs)
  then obtain y ys' where ys: "ys = y # ys'" by (cases ys) auto
  have cx: "c \<notin> set x" and cy: "c \<notin> set y" using Cons.prems(1) ys by auto
  show ?case
  proof (cases "xs = []")
    case xs: True
    show ?thesis
    proof (cases "ys' = []")
      case True
      with xs ys Cons.prems(4) show ?thesis by simp
    next
      case False
      with xs ys Cons.prems(4) have "x = y @ c # join [c] ys'" by (simp add: join_Cons)
      with cx show ?thesis by auto
    qed
  next
    case xs: False
    show ?thesis
    proof (cases "ys' = []")
      case True
      with xs ys Cons.prems(4) have "y = x @ c # join [c] xs" by (simp add: join_Cons)
      with cy show ?thesis by auto
    next
      case False
      with xs ys Cons.prems(4) have "x @ c # join [c] xs = y @ c # join [c] ys'"
        by (simp add: join_Cons)
      from sep_split_unique[OF cx cy this] have xy: "x = y" and j: "join [c] xs = join [c] ys'"
        by simp_all
      have "xs = ys'"
        using Cons.IH[of ys'] Cons.prems(1) ys xs False j by auto
      with xy ys show ?thesis by simp
    qed
  qed
qed

lemma cache_key_not_Nil: "cache_key kw \<noteq> []"
  by (cases "filter_None (dict_values kw)") (simp_all add: cache_key_def)

lemma example_key: "cache_key example_kwargs = ''node/UbuntuLTS''"
  by (simp add: cache_key_def dict_values_def)

lemma join_concat: "join [c] (x # xs) = x @ concat (map (\<lambda>v. c # v) xs)"
  by (induction xs arbitrary: x) simp_all

lemma filter_None_values:
  "filter_None vs = map the (filter (\<lambda>v. v \<noteq> None \<and> v \<noteq> Some []) vs)"
  by (induction vs rule: filter_None.induct) simp_all

text \<open>
  Claim C1, as the code has it. The key is \<^verbatim>\<open>node\<close> followed, for each declared value
  that is neither \<^verbatim>\<open>None\<close> nor empty, in declaration order, by \<^verbatim>\<open>/\<close> and the value;
  the names of the parameters are not part of it. So two intents whose non-empty values,
  read in declaration order, are the same sequence get the same key; and when no value
  contains \<^verbatim>\<open>/\<close>, two intents whose sequences of non-empty values differ get different
  keys.
\<close>

theorem cache_key_value_sequence:
  "cache_key kw1 = ''node'' @ concat (map (\<lambda>v. CHR ''/'' # v) (filter_None (dict_values kw1))) \<and>
   filter_None (dict_values kw1)
     = map the (filter (\<lambda>v. v \<noteq> None \<and> v \<noteq> Some []) (map snd kw1)) \<and>
   (filter_None (dict_values kw1) = filter_None (dict_values kw2) \<longrightarrow>
      cache_key kw1 = cache_key kw2) \<and>
   ((\<forall>v \<in> set (filter_None (dict_values kw1)) \<union> set (filter_None (dict_values kw2)).
        CHR ''/'' \<notin> set v) \<longrightarrow>
      filter_None (dict_values kw1) \<noteq> filter_None (dict_values kw2) \<longrightarrow>
      cache_key kw1 \<noteq> cache_key kw2)"
proof (intro conjI impI)
  show "cache_key kw1 = ''node'' @ concat (map (\<lambda>v. CHR ''/'' # v) (filter_None (dict_values kw1)))"
    using join_concat[of "CHR ''/''" "''node''" "filter_None (dict_values kw1)"]
    by (simp add: cache_key_def)
next
  show "filter_None (dict_values kw1)
          = map the (filter (\<lambda>v. v \<noteq> None \<and> v \<noteq> Some []) (map snd kw1))"
    by (simp add: filter_None_values dict_values_def)
next
  assume "filter_None (dict_values kw1) = filter_None (dict_values kw2)"
  then show "cache_key kw1 = cache_key kw2" by (simp add: cache_key_def)
next
  assume free: "\<forall>v \<in> set (filter_None (dict_values kw1)) \<union> set (filter_None (dict_values kw2)).
      CHR ''/'' \<notin> set v"
    and ne: "filter_None (dict_values kw1) \<noteq> filter_None (dict_values kw2)"
  show "cache_key kw1 \<noteq> cache_key kw2"
  proof
    assume "cache_key kw1 = cache_key kw2"
    then have "join [CHR ''/''] (''node'' # filter_None (dict_values kw1))
             = join [CHR ''/''] (''node'' # filter_None (dict_values kw2))"
      by (simp add: cache_key_def)
    moreover have "\<forall>x \<in> set (''node'' # filter_None (dict_values kw1))
                      \<union> set (''node'' # filter_None (dict_values kw2)). CHR ''/'' \<notin> set x"
      using free by auto
    ultimately have "''node'' # filter_None (dict_values kw1)
                   = ''node'' # filter_None (dict_values kw2)"
      by (intro join_inj[where c="CHR ''/''"]) simp_all
    with ne show False by simp
  qed
qed

theorem cache_key_value_sequence_witness:
  "cache_key [(''vm_image'', Some ''a''), (''setup'', Some []), (''vm_size'', Some ''b''),
              (''networking'', None)] = ''node/a/b'' \<and>
   cache_key [(''vm_size'', Some ''b''), (''vm_image'', Some ''a'')] = ''node/b/a'' \<and>
   cache_key [(''vm_image'', Some ''UbuntuLTS''), (''setup'', Some []), (''networking'', None)]
     = cache_key [(''vm_image'', Some ''UbuntuLTS'')] \<and>
   cache_key [(''vm_image'', Some ''UbuntuLTS'')] \<noteq> cache_key [(''vm_image'', Some ''Debian'')]"
  using cache_key_value_sequence
          [of "[(''vm_image'', Some ''a''), (''setup'', Some []), (''vm_size'', Some ''b''),
                (''networking'', None)]" "[]"]
        cache_key_value_sequence
          [of "[(''vm_size'', Some ''b''), (''vm_image'', Some ''a'')]" "[]"]
        cache_key_value_sequence
          [of "[(''vm_image'', Some ''UbuntuLTS''), (''setup'', Some []), (''networking'', None)]"
              "[(''vm_image'', Some ''UbuntuLTS'')]"]
        cache_key_value_sequence
          [of "[(''vm_image'', Some ''UbuntuLTS'')]" "[(''vm_image'', Some ''Debian'')]"]
  by (auto simp: dict_values_def)

text \<open>
  Claim C1 as stated fails in both halves. The same two parameters declared in the other
  order give \<^verbatim>\<open>node/a/b\<close> and \<^verbatim>\<open>node/b/a\<close>; and two intents that give
  \<^verbatim>\<open>vm_image\<close> different values can share the key \<^verbatim>\<open>node/a/b\<close>.
\<close>

theorem cache_key_order_counterexample:
  "set [(''vm_image'', Some ''a''), (''vm_size'', Some ''b'')]
     = set [(''vm_size'', Some ''b''), (''vm_image'', Some ''a'')] \<and>
   cache_key [(''vm_image'', Some ''a''), (''vm_size'', Some ''b'')]
     \<noteq> cache_key [(''vm_size'', Some ''b''), (''vm_image'', Some ''a'')] \<and>
   map_of [(''vm_image'', Some ''a''), (''vm_size'', Some ''b'')] ''vm_image''
     \<noteq> map_of [(''vm_size'', Some ''a''), (''vm_image'', Some ''b'')] ''vm_image'' \<and>
   cache_key [(''vm_image'', Some ''a''), (''vm_size'', Some ''b'')]
     = cache_key [(''vm_size'', Some ''a''), (''vm_image'', Some ''b'')]"
  by (auto simp: cache_key_def dict_values_def)

subsection \<open>Dicts and the store\<close>

lemma map_of_dict_set: "map_of (dict_set k v d) = (map_of d)(k \<mapsto> v)"
  by (induction d) (auto simp: fun_eq_iff)

lemma dict_set_not_Nil: "dict_set k v d \<noteq> []"
  by (cases d) (auto split: if_splits)

lemma config_ok_module_store: "config_ok module_store"
  by (simp add: config_ok_def module_store_def config_addr_def)

lemma config_okE:
  assumes "config_ok h"
  obtains r where "config_addr < length h" "map_of (h ! config_addr) ''run'' = Some (PRef r)" "r < length h"
  using assms unfolding config_ok_def
  by (auto split: option.splits pyval.splits)

lemma make_ssh_config_run:
  assumes "config_addr < length h" "map_of (h ! config_addr) ''run'' = Some (PRef r)" "r < length h"
  shows "make_ssh_config h =
    (Inr (length h),
     (h @ [h ! config_addr, [(''PATH'', PStr ssh_path)]])[r := dict_set ''env'' (PRef (Suc (length h))) (h ! r)])"
  using assms
  by (simp add: make_ssh_config_def dict_copy_def alloc_def subscript_def nth_append)

text \<open>The fixture keeps the global configuration well formed.\<close>

lemma make_ssh_config_ok:
  assumes "config_ok h"
  shows "\<exists>h'. make_ssh_config h = (Inr (length h), h') \<and> config_ok h'"
proof -
  from assms obtain r where r: "config_addr < length h"
    "map_of (h ! config_addr) ''run'' = Some (PRef r)" "r < length h"
    by (rule config_okE)
  let ?h' = "(h @ [h ! config_addr, [(''PATH'', PStr ssh_path)]])[r := dict_set ''env'' (PRef (Suc (length h))) (h ! r)]"
  have "map_of (?h' ! config_addr) ''run'' = Some (PRef r)"
    using r by (cases "r = config_addr") (simp_all add: nth_append map_of_dict_set)
  then have "config_ok ?h'"
    using r by (simp add: config_ok_def)
  with make_ssh_config_run[OF r] show ?thesis by simp
qed

lemma make_ssh_config_shares:
  assumes "config_addr < length h" "map_of (h ! config_addr) ''run'' = Some (PRef r)" "r < length h"
    "make_ssh_config h = (Inr a, h')"
  shows "a = length h \<and> a \<noteq> config_addr \<and> length h' = length h + 2 \<and>
         map_of (h' ! config_addr) ''run'' = Some (PRef r) \<and>
         map_of (h' ! a) ''run'' = Some (PRef r) \<and>
         map_of (h' ! r) ''env'' = Some (PRef (Suc (length h))) \<and>
         h' ! Suc (length h) = [(''PATH'', PStr ssh_path)] \<and>
         (\<forall>k. k \<noteq> ''env'' \<longrightarrow> map_of (h' ! r) k = map_of (h ! r) k)"
proof -
  let ?h' = "(h @ [h ! config_addr, [(''PATH'', PStr ssh_path)]])[r := dict_set ''env'' (PRef (Suc (length h))) (h ! r)]"
  from make_ssh_config_run[OF assms(1-3)] assms(4)
  have a: "a = length h" and h': "h' = ?h'" by simp_all
  have 1: "map_of (?h' ! config_addr) ''run'' = Some (PRef r)"
    using assms(1-3) by (cases "r = config_addr") (simp_all add: nth_append map_of_dict_set)
  have 2: "map_of (?h' ! length h) ''run'' = Some (PRef r)"
    using assms(1-3) by (simp add: nth_append)
  have 3: "map_of (?h' ! r) ''env'' = Some (PRef (Suc (length h)))"
    using assms(3) by (simp add: map_of_dict_set)
  have 4: "?h' ! Suc (length h) = [(''PATH'', PStr ssh_path)]"
    using assms(3) by (simp add: nth_append)
  have 5: "\<forall>k. k \<noteq> ''env'' \<longrightarrow> map_of (?h' ! r) k = map_of (h ! r) k"
    using assms(3) by (simp add: map_of_dict_set)
  from a h' 1 2 3 4 5 assms(1) show ?thesis by simp
qed

lemma config_run_env_path:
  assumes "a < length h" "map_of (h ! a) ''run'' = Some (PRef r)" "r < length h"
    "map_of (h ! r) ''env'' = Some (PRef e)" "e < length h" "h ! e = [(''PATH'', PStr p)]"
  shows "config_run_env h a = [(''PATH'', p)]"
  using assms by (simp add: config_run_env_def)

subsection \<open>The cache of pytest\<close>

lemma proper_prefix_irrefl: "\<not> proper_prefix p p"
  by (simp add: proper_prefix_def)

lemma keys_dict_set: "set (map fst (dict_set k v d)) = insert k (set (map fst d))"
  by (induction d) (force split: if_splits)+

lemma storable_dict_set: "storable c p \<Longrightarrow> storable (dict_set p v c) p"
  unfolding storable_def list_all_iff keys_dict_set
  by (simp add: proper_prefix_irrefl)

text \<open>A value that was written is read back; a path that cannot be a file reads as
  \<^verbatim>\<open>None\<close>, and a write to it stores nothing.\<close>

lemma Cache_get_dict_set:
  "storable c (getvaluepath key) \<Longrightarrow> Cache_get (dict_set (getvaluepath key) v c) key = v"
  by (cases v) (simp_all add: Cache_get_def Let_def storable_dict_set map_of_dict_set)

lemma Cache_set_written:
  "fs c (getvaluepath key) = Written \<Longrightarrow> storable c (getvaluepath key) \<Longrightarrow>
   Cache_set fs c key v = Inr (dict_set (getvaluepath key) v c)"
  by (simp add: Cache_set_def Let_def)

lemma Cache_set_blocked:
  "fs c (getvaluepath key) = Written \<Longrightarrow> \<not> storable c (getvaluepath key) \<Longrightarrow>
   Cache_set fs c key v = Inr c"
  by (simp add: Cache_set_def Let_def)

lemma Cache_get_blocked: "\<not> storable c (getvaluepath key) \<Longrightarrow> Cache_get c key = None"
  by (simp add: Cache_get_def Let_def)

lemma Cache_set_refused:
  "fs c (getvaluepath key) = Refused \<Longrightarrow> Cache_set fs c key v = Inr c"
  by (simp add: Cache_set_def Let_def)

lemma Cache_set_raised:
  "fs c (getvaluepath key) = Raised err \<Longrightarrow> Cache_set fs c key v = Inl err"
  by (simp add: Cache_set_def Let_def)

lemma Cache_set_returns:
  "(\<forall>err. fs c (getvaluepath key) \<noteq> Raised err) \<Longrightarrow> \<exists>c'. Cache_set fs c key v = Inr c'"
  by (cases "fs c (getvaluepath key)") (simp_all add: Cache_set_def Let_def)

lemma Cache_get_cleared:
  assumes "fs c (getvaluepath key) = Written"
  shows "\<exists>c'. Cache_set fs c key None = Inr c' \<and> Cache_get c' key = None"
proof (cases "storable c (getvaluepath key)")
  case True
  with assms Cache_set_written[of fs c key None] Cache_get_dict_set[of c key None]
  show ?thesis by simp
next
  case False
  with assms Cache_set_blocked[of fs c key None] Cache_get_blocked[of c key]
  show ?thesis by simp
qed

lemma example_path: "getvaluepath ''node/UbuntuLTS'' = [''node'', ''UbuntuLTS'']"
  by (simp add: getvaluepath_def)

lemma example_cached:
  "Cache_get [([''node'', ''UbuntuLTS''], Some cached_descriptor)] ''node/UbuntuLTS''
     = Some cached_descriptor"
  by (simp add: Cache_get_def Let_def example_path storable_def proper_prefix_def)

subsection \<open>The branches of the fixture\<close>

lemma deploy_vm_heap: "heap (snd (deploy_vm x name kw s)) = heap s"
  by (simp add: deploy_vm_def Let_def split: sum.splits)

lemma cache_set_heap: "heap (snd (cache_set x key v s)) = heap s"
  by (simp add: cache_set_def split: option.splits sum.splits)

lemma cache_miss_heap: "heap (snd (cache_miss x key kw s)) = heap s"
proof -
  let ?name = "''pytest-'' @ uuid4 x (uuid_count s)"
  let ?s1 = "s\<lparr>uuid_count := Suc (uuid_count s)\<rparr>"
  obtain r s2 where d: "deploy_vm x ?name kw ?s1 = (r, s2)"
    by (cases "deploy_vm x ?name kw ?s1")
  with deploy_vm_heap[of x ?name kw ?s1] have h2: "heap s2 = heap s" by simp
  show ?thesis
  proof (cases r)
    case (Inl err)
    with d h2 show ?thesis by (simp add: cache_miss_def Let_def)
  next
    case (Inr hd)
    obtain host data where hd: "hd = (host, data)" by (cases hd)
    let ?d = "dict_set ''host'' host (dict_set ''name'' ?name data)"
    obtain r3 s3 where c: "cache_set x key (Some ?d) s2 = (r3, s3)"
      by (cases "cache_set x key (Some ?d) s2")
    with cache_set_heap[of x key "Some ?d" s2] have "heap s3 = heap s2" by simp
    with d Inr hd c h2 show ?thesis
      by (simp add: cache_miss_def Let_def split: sum.splits)
  qed
qed

lemma provision_or_reuse_heap: "heap (snd (provision_or_reuse x kw s)) = heap s"
proof (cases "cache s")
  case None
  then show ?thesis by (simp add: provision_or_reuse_def)
next
  case (Some c)
  show ?thesis
  proof (cases "truthy_data (Cache_get c (cache_key kw))")
    case True
    with Some show ?thesis
      by (simp add: provision_or_reuse_def Let_def split: sum.splits)
  next
    case False
    obtain r s1 where m: "cache_miss x (cache_key kw) kw s = (r, s1)"
      by (cases "cache_miss x (cache_key kw) kw s")
    with cache_miss_heap[of x "cache_key kw" kw s] have "heap s1 = heap s" by simp
    with Some False m show ?thesis
      by (simp add: provision_or_reuse_def Let_def split: sum.splits)
  qed
qed

lemma select_node_heap: "heap (snd (select_node x req s)) = heap s"
  by (simp add: select_node_def provision_or_reuse_heap split: option.splits list.splits)

lemma provision_or_reuse_hit:
  assumes "cache s = Some c" "Cache_get c (cache_key kw) = Some d" "d \<noteq> []"
    "map_of d ''name'' = Some n" "map_of d ''host'' = Some h"
  shows "provision_or_reuse x kw s = (Inr (Some (cache_key kw), n, h, d), s)"
  using assms by (simp add: provision_or_reuse_def subscript_def)

lemma provision_or_reuse_hit_calls:
  assumes "cache s = Some c" "truthy_data (Cache_get c (cache_key kw))"
  shows "snd (provision_or_reuse x kw s) = s"
  using assms
  by (simp add: provision_or_reuse_def subscript_def Let_def split: option.splits sum.splits)

lemma cache_miss_returns:
  assumes "cache s = Some c"
    "vm_create x (calls s) (''pytest-'' @ uuid4 x (uuid_count s)) kw = Inr data"
    "map_of data ''publicIpAddress'' = Some h"
    "Cache_set (cache_write x) c key
       (Some (dict_set ''host'' h (dict_set ''name'' (''pytest-'' @ uuid4 x (uuid_count s)) data)))
       = Inr c'"
  shows "cache_miss x key kw s =
    (Inr (dict_set ''host'' h (dict_set ''name'' (''pytest-'' @ uuid4 x (uuid_count s)) data)),
     s\<lparr>uuid_count := Suc (uuid_count s),
       calls := calls s @ [Deploy_vm (''pytest-'' @ uuid4 x (uuid_count s)) kw],
       cache := Some c'\<rparr>)"
  using assms
  by (simp add: cache_miss_def deploy_vm_def cache_set_def subscript_def Let_def)

text \<open>When \<^verbatim>\<open>cache.set\<close> raises, the error leaves the fixture after the machine has been
  deployed.\<close>

lemma cache_miss_raises:
  assumes "cache s = Some c"
    "vm_create x (calls s) (''pytest-'' @ uuid4 x (uuid_count s)) kw = Inr data"
    "map_of data ''publicIpAddress'' = Some h"
    "Cache_set (cache_write x) c key
       (Some (dict_set ''host'' h (dict_set ''name'' (''pytest-'' @ uuid4 x (uuid_count s)) data)))
       = Inl err"
  shows "cache_miss x key kw s =
    (Inl err,
     s\<lparr>uuid_count := Suc (uuid_count s),
       calls := calls s @ [Deploy_vm (''pytest-'' @ uuid4 x (uuid_count s)) kw]\<rparr>)"
  using assms
  by (simp add: cache_miss_def deploy_vm_def cache_set_def subscript_def Let_def)

text \<open>A miss calls \<^verbatim>\<open>deploy_vm\<close> once, whether the call returns or raises.\<close>

lemma cache_miss_calls:
  "calls (snd (cache_miss x key kw s)) = calls s @ [Deploy_vm (''pytest-'' @ uuid4 x (uuid_count s)) kw]"
  by (simp add: cache_miss_def deploy_vm_def cache_set_def subscript_def Let_def
      split: sum.splits option.splits prod.splits)

lemma provision_or_reuse_miss:
  assumes "cache s = Some c" "\<not> truthy_data (Cache_get c (cache_key kw))"
    "vm_create x (calls s) (''pytest-'' @ uuid4 x (uuid_count s)) kw = Inr data"
    "map_of data ''publicIpAddress'' = Some h"
    "Cache_set (cache_write x) c (cache_key kw)
       (Some (dict_set ''host'' h (dict_set ''name'' (''pytest-'' @ uuid4 x (uuid_count s)) data)))
       = Inr c'"
  shows "provision_or_reuse x kw s =
    (Inr (Some (cache_key kw), ''pytest-'' @ uuid4 x (uuid_count s), h,
          dict_set ''host'' h (dict_set ''name'' (''pytest-'' @ uuid4 x (uuid_count s)) data)),
     s\<lparr>uuid_count := Suc (uuid_count s),
       calls := calls s @ [Deploy_vm (''pytest-'' @ uuid4 x (uuid_count s)) kw],
       cache := Some c'\<rparr>)"
  using assms(1,2) cache_miss_returns[OF assms(1,3,4,5)]
  by (simp add: provision_or_reuse_def subscript_def map_of_dict_set Let_def)

lemma provision_or_reuse_miss_raises:
  assumes "cache s = Some c" "\<not> truthy_data (Cache_get c (cache_key kw))"
    "vm_create x (calls s) (''pytest-'' @ uuid4 x (uuid_count s)) kw = Inr data"
    "map_of data ''publicIpAddress'' = Some h"
    "Cache_set (cache_write x) c (cache_key kw)
       (Some (dict_set ''host'' h (dict_set ''name'' (''pytest-'' @ uuid4 x (uuid_count s)) data)))
       = Inl err"
  shows "provision_or_reuse x kw s =
    (Inl err,
     s\<lparr>uuid_count := Suc (uuid_count s),
       calls := calls s @ [Deploy_vm (''pytest-'' @ uuid4 x (uuid_count s)) kw]\<rparr>)"
  using assms(1,2) cache_miss_raises[OF assms(1,3,4,5)]
  by (simp add: provision_or_reuse_def Let_def)

lemma provision_or_reuse_miss_calls:
  assumes "cache s = Some c" "\<not> truthy_data (Cache_get c (cache_key kw))"
  shows "calls (snd (provision_or_reuse x kw s)) = calls s @ [Deploy_vm (''pytest-'' @ uuid4 x (uuid_count s)) kw]"
proof -
  obtain r s1 where r: "cache_miss x (cache_key kw) kw s = (r, s1)" by (cases "cache_miss x (cache_key kw) kw s")
  with cache_miss_calls[of x "cache_key kw" kw s]
  have "calls s1 = calls s @ [Deploy_vm (''pytest-'' @ uuid4 x (uuid_count s)) kw]" by simp
  with assms r show ?thesis
    by (simp add: provision_or_reuse_def Let_def split: sum.splits)
qed

lemma provision_or_reuse_key:
  assumes "provision_or_reuse x kw s = (Inr (key, name, host, data), s1)"
  shows "key = Some (cache_key kw)"
  using assms
  by (auto simp: provision_or_reuse_def Let_def split: option.splits sum.splits prod.splits if_splits)

lemma select_node_deploy:
  "deploy_marker req = Some kw \<Longrightarrow> select_node x req s = provision_or_reuse x kw s"
  by (simp add: select_node_def)

lemma select_node_connect:
  "deploy_marker req = None \<Longrightarrow> connect_marker req = Some (h # rest) \<Longrightarrow>
   select_node x req s = (Inr (None, ''pre-deployed:'' @ h, h, []), s)"
  by (simp add: select_node_def)

lemma select_node_local:
  "deploy_marker req = None \<Longrightarrow> connect_marker req = None \<Longrightarrow>
   select_node x req s = (Inr (None, ''localhost'', ''localhost'', []), s)"
  by (simp add: select_node_def)

lemma node_setup_selected:
  assumes "select_node x req s = (Inr (key, name, host, data), s1)" "config_ok (heap s1)"
  shows "\<exists>h'. node_setup x req s =
      (Inr \<lparr>fr_key = key, fr_name = name, fr_host = host, fr_data = data,
            fr_node = \<lparr>node_host = host, node_config = length (heap s1),
                       node_inline_ssh_env = True, node_name = name, node_data = data\<rparr>\<rparr>,
       s1\<lparr>heap := h'\<rparr>) \<and> config_ok h' \<and> make_ssh_config (heap s1) = (Inr (length (heap s1)), h')"
  using assms(1) make_ssh_config_ok[OF assms(2)]
  by (auto simp: node_setup_def)

lemma node_setup_yields:
  assumes "node_setup x req s = (Inr fr, s')"
  obtains key name host data s1 where
    "select_node x req s = (Inr (key, name, host, data), s1)"
    "fr_key fr = key" "fr_name fr = name" "fr_host fr = host" "fr_data fr = data"
    "node_name (fr_node fr) = name" "node_host (fr_node fr) = host" "node_data (fr_node fr) = data"
    "make_ssh_config (heap s1) = (Inr (node_config (fr_node fr)), heap s')"
    "s' = s1\<lparr>heap := heap s'\<rparr>"
  using assms
  by (auto simp: node_setup_def split: prod.splits sum.splits)

lemma node_setup_calls:
  "calls (snd (node_setup x req s)) = calls (snd (select_node x req s))"
  by (simp add: node_setup_def split: prod.splits sum.splits)

lemma node_setup_hit:
  assumes "deploy_marker req = Some kw" "cache s = Some c" "Cache_get c (cache_key kw) = Some d"
    "map_of d ''name'' = Some n" "map_of d ''host'' = Some h" "config_ok (heap s)"
  shows "\<exists>h'. node_setup x req s =
      (Inr \<lparr>fr_key = Some (cache_key kw), fr_name = n, fr_host = h, fr_data = d,
            fr_node = \<lparr>node_host = h, node_config = length (heap s),
                       node_inline_ssh_env = True, node_name = n, node_data = d\<rparr>\<rparr>,
       s\<lparr>heap := h'\<rparr>) \<and> config_ok h'"
proof -
  from assms(4) have "d \<noteq> []" by auto
  with assms have "select_node x req s = (Inr (Some (cache_key kw), n, h, d), s)"
    by (simp add: select_node_deploy provision_or_reuse_hit)
  from node_setup_selected[OF this assms(6)] show ?thesis by blast
qed

lemma node_setup_deploy_key:
  assumes "deploy_marker req = Some kw" "node_setup x req s = (Inr fr, s1)"
  shows "fr_key fr = Some (cache_key kw) \<and> fr_name fr = node_name (fr_node fr)"
proof -
  from assms(2) obtain key name host data s0 where
    sel: "select_node x req s = (Inr (key, name, host, data), s0)" and
    fr: "fr_key fr = key" "fr_name fr = name" "node_name (fr_node fr) = name"
    by (rule node_setup_yields)
  from sel assms(1) have "key = Some (cache_key kw)"
    by (simp add: select_node_deploy provision_or_reuse_key)
  with fr show ?thesis by simp
qed

lemma cached_setup:
  "\<exists>h'. node_setup example_extern (deploy_request keep) cached_state =
      (Inr \<lparr>fr_key = Some (cache_key example_kwargs), fr_name = ''pytest-6f1c'',
            fr_host = ''10.0.0.4'', fr_data = cached_descriptor,
            fr_node = \<lparr>node_host = ''10.0.0.4'', node_config = length (heap cached_state),
                       node_inline_ssh_env = True, node_name = ''pytest-6f1c'',
                       node_data = cached_descriptor\<rparr>\<rparr>,
       cached_state\<lparr>heap := h'\<rparr>) \<and> config_ok h'"
  by (rule node_setup_hit
        [where c = "[([''node'', ''UbuntuLTS''], Some cached_descriptor)]"])
     (simp_all add: example_key example_cached config_ok_module_store)

lemma failing_setup:
  "\<exists>h'. node_setup failing_delete_extern (deploy_request False) cached_state =
      (Inr \<lparr>fr_key = Some (cache_key example_kwargs), fr_name = ''pytest-6f1c'',
            fr_host = ''10.0.0.4'', fr_data = cached_descriptor,
            fr_node = \<lparr>node_host = ''10.0.0.4'', node_config = length (heap cached_state),
                       node_inline_ssh_env = True, node_name = ''pytest-6f1c'',
                       node_data = cached_descriptor\<rparr>\<rparr>,
       cached_state\<lparr>heap := h'\<rparr>) \<and> config_ok h'"
  by (rule node_setup_hit
        [where c = "[([''node'', ''UbuntuLTS''], Some cached_descriptor)]"])
     (simp_all add: example_key example_cached config_ok_module_store)

lemma refusing_setup:
  "\<exists>h'. node_setup refusing_extern (deploy_request False) cached_state =
      (Inr \<lparr>fr_key = Some (cache_key example_kwargs), fr_name = ''pytest-6f1c'',
            fr_host = ''10.0.0.4'', fr_data = cached_descriptor,
            fr_node = \<lparr>node_host = ''10.0.0.4'', node_config = length (heap cached_state),
                       node_inline_ssh_env = True, node_name = ''pytest-6f1c'',
                       node_data = cached_descriptor\<rparr>\<rparr>,
       cached_state\<lparr>heap := h'\<rparr>) \<and> config_ok h'"
  by (rule node_setup_hit
        [where c = "[([''node'', ''UbuntuLTS''], Some cached_descriptor)]"])
     (simp_all add: example_key example_cached config_ok_module_store)

lemma connect_setup:
  "\<exists>fr s'. node_setup example_extern connect_request fresh_state = (Inr fr, s')"
  using node_setup_selected
    [OF select_node_connect[of connect_request "''203.0.113.5''" "[]" example_extern fresh_state]]
  by (auto simp: config_ok_module_store)

subsection \<open>Teardown\<close>

lemma node_teardown_keep:
  "keep_vms req \<Longrightarrow> node_teardown x req fr s = (Inr (), s)"
  by (simp add: node_teardown_def)

lemma node_teardown_unbound:
  "\<not> keep_vms req \<Longrightarrow> fr_key fr = None \<Longrightarrow>
   node_teardown x req fr s = (Inl (UnboundLocalError ''key''), s)"
  by (simp add: node_teardown_def)

lemma node_teardown_unbound_calls:
  "fr_key fr = None \<Longrightarrow> snd (node_teardown x req fr s) = s"
  by (simp add: node_teardown_def)

lemma node_teardown_calls_deploy:
  "filter is_deploy (calls (snd (node_teardown x req fr s))) = filter is_deploy (calls s)"
  by (simp add: node_teardown_def delete_vm_def cache_set_def Let_def
      split: option.splits sum.splits prod.splits)

lemma node_teardown_delete:
  assumes "\<not> keep_vms req" "fr_key fr = Some key" "key \<noteq> []"
  shows "calls (snd (node_teardown x req fr s)) = calls s @ [Delete_vm (fr_name fr)]"
  using assms
  by (simp add: node_teardown_def delete_vm_def cache_set_def Let_def
      split: option.splits sum.splits prod.splits)

lemma node_teardown_deleted:
  assumes "\<not> keep_vms req" "fr_key fr = Some key" "key \<noteq> []" "cache s = Some c"
    "group_delete x (calls s) (fr_name fr) = None"
    "Cache_set (cache_write x) c key None = Inr c'"
  shows "node_teardown x req fr s =
    (Inr (), s\<lparr>calls := calls s @ [Delete_vm (fr_name fr)], cache := Some c'\<rparr>)"
  using assms
  by (simp add: node_teardown_def delete_vm_def cache_set_def Let_def)

lemma node_teardown_set_raises:
  assumes "\<not> keep_vms req" "fr_key fr = Some key" "key \<noteq> []" "cache s = Some c"
    "group_delete x (calls s) (fr_name fr) = None"
    "Cache_set (cache_write x) c key None = Inl err"
  shows "node_teardown x req fr s =
    (Inl err, s\<lparr>calls := calls s @ [Delete_vm (fr_name fr)]\<rparr>)"
  using assms
  by (simp add: node_teardown_def delete_vm_def cache_set_def Let_def)

text \<open>When \<^verbatim>\<open>az group delete\<close> fails the error leaves the fixture before line 211, and
  the cache keeps its entry.\<close>

lemma node_teardown_delete_fails:
  assumes "\<not> keep_vms req" "fr_key fr = Some key" "key \<noteq> []"
    "group_delete x (calls s) (fr_name fr) = Some err"
  shows "node_teardown x req fr s = (Inl err, s\<lparr>calls := calls s @ [Delete_vm (fr_name fr)]\<rparr>)"
  using assms
  by (simp add: node_teardown_def delete_vm_def cache_set_def Let_def)

subsection \<open>Reuse, provisioning and cleanup\<close>

text \<open>What the fixture yields on a hit, and on a miss that \<^verbatim>\<open>deploy_vm\<close> answers.\<close>

lemma node_setup_hit_yields:
  assumes "deploy_marker req = Some kw" "cache s = Some c" "Cache_get c (cache_key kw) = Some d"
    "map_of d ''name'' = Some n" "map_of d ''host'' = Some h" "config_ok (heap s)"
  shows "\<exists>fr s'. node_setup x req s = (Inr fr, s') \<and>
           calls s' = calls s \<and> cache s' = cache s \<and> uuid_count s' = uuid_count s \<and>
           node_name (fr_node fr) = n \<and> node_host (fr_node fr) = h \<and>
           node_data (fr_node fr) = d \<and>
           filter is_deploy (calls (snd (node_teardown x req fr s'))) = filter is_deploy (calls s)"
proof -
  from node_setup_hit[OF assms] obtain h' where
    "node_setup x req s =
      (Inr \<lparr>fr_key = Some (cache_key kw), fr_name = n, fr_host = h, fr_data = d,
            fr_node = \<lparr>node_host = h, node_config = length (heap s),
                       node_inline_ssh_env = True, node_name = n, node_data = d\<rparr>\<rparr>,
       s\<lparr>heap := h'\<rparr>)" by blast
  then show ?thesis
    by (simp add: node_teardown_calls_deploy)
qed

lemma node_setup_miss_yields:
  assumes "deploy_marker req = Some kw" "cache s = Some c"
    "\<not> truthy_data (Cache_get c (cache_key kw))"
    "vm_create x (calls s) (''pytest-'' @ uuid4 x (uuid_count s)) kw = Inr data"
    "map_of data ''publicIpAddress'' = Some host"
    "Cache_set (cache_write x) c (cache_key kw)
       (Some (dict_set ''host'' host
                (dict_set ''name'' (''pytest-'' @ uuid4 x (uuid_count s)) data)))
       = Inr c'"
    "config_ok (heap s)"
  shows "\<exists>h'. node_setup x req s =
      (Inr \<lparr>fr_key = Some (cache_key kw), fr_name = ''pytest-'' @ uuid4 x (uuid_count s),
            fr_host = host,
            fr_data = dict_set ''host'' host
                        (dict_set ''name'' (''pytest-'' @ uuid4 x (uuid_count s)) data),
            fr_node = \<lparr>node_host = host, node_config = length (heap s),
                       node_inline_ssh_env = True,
                       node_name = ''pytest-'' @ uuid4 x (uuid_count s),
                       node_data = dict_set ''host'' host
                         (dict_set ''name'' (''pytest-'' @ uuid4 x (uuid_count s)) data)\<rparr>\<rparr>,
       s\<lparr>uuid_count := Suc (uuid_count s),
         calls := calls s @ [Deploy_vm (''pytest-'' @ uuid4 x (uuid_count s)) kw],
         cache := Some c',
         heap := h'\<rparr>) \<and> config_ok h'"
proof -
  let ?name = "''pytest-'' @ uuid4 x (uuid_count s)"
  let ?d = "dict_set ''host'' host (dict_set ''name'' ?name data)"
  let ?s1 = "s\<lparr>uuid_count := Suc (uuid_count s), calls := calls s @ [Deploy_vm ?name kw],
               cache := Some c'\<rparr>"
  have sel: "select_node x req s = (Inr (Some (cache_key kw), ?name, host, ?d), ?s1)"
    using assms(1) provision_or_reuse_miss[OF assms(2-6)] by (simp add: select_node_deploy)
  have "config_ok (heap ?s1)" using assms(7) by simp
  from node_setup_selected[OF sel this] show ?thesis by auto
qed

lemma node_setup_miss_raises:
  assumes "deploy_marker req = Some kw" "cache s = Some c"
    "\<not> truthy_data (Cache_get c (cache_key kw))"
    "vm_create x (calls s) (''pytest-'' @ uuid4 x (uuid_count s)) kw = Inr data"
    "map_of data ''publicIpAddress'' = Some host"
    "Cache_set (cache_write x) c (cache_key kw)
       (Some (dict_set ''host'' host
                (dict_set ''name'' (''pytest-'' @ uuid4 x (uuid_count s)) data)))
       = Inl err"
  shows "node_setup x req s =
    (Inl err,
     s\<lparr>uuid_count := Suc (uuid_count s),
       calls := calls s @ [Deploy_vm (''pytest-'' @ uuid4 x (uuid_count s)) kw]\<rparr>)"
  using assms(1) provision_or_reuse_miss_raises[OF assms(2-6)]
  by (simp add: node_setup_def select_node_deploy)

lemma node_setup_uuid_count:
  "uuid_count (snd (node_setup x req s)) = uuid_count (snd (select_node x req s))"
  by (simp add: node_setup_def split: prod.splits sum.splits)

lemma cache_miss_uuid_count:
  "uuid_count (snd (cache_miss x key kw s)) = Suc (uuid_count s)"
  by (simp add: cache_miss_def deploy_vm_def cache_set_def subscript_def Let_def
      split: sum.splits option.splits prod.splits)

lemma provision_or_reuse_miss_uuid_count:
  assumes "cache s = Some c" "\<not> truthy_data (Cache_get c (cache_key kw))"
  shows "uuid_count (snd (provision_or_reuse x kw s)) = Suc (uuid_count s)"
proof -
  obtain r s1 where r: "cache_miss x (cache_key kw) kw s = (r, s1)"
    by (cases "cache_miss x (cache_key kw) kw s")
  with cache_miss_uuid_count[of x "cache_key kw" kw s]
  have "uuid_count s1 = Suc (uuid_count s)" by simp
  with assms r show ?thesis
    by (simp add: provision_or_reuse_def Let_def split: sum.splits)
qed

text \<open>
  Claim C2. On the \<^verbatim>\<open>deploy\<close> branch, when the cache holds a non-empty descriptor
  under the computed key, the fixture makes no call up to its \<^verbatim>\<open>yield\<close>, so no
  provisioning call; and when the descriptor has a \<^verbatim>\<open>name\<close> and a \<^verbatim>\<open>host\<close>, the
  fixture yields a node whose name and host are those two fields and whose data is the
  cached descriptor, with the cache and the uuid counter as they were, and its teardown
  makes no provisioning call either.
\<close>

theorem cache_hit_reuses_descriptor:
  assumes "deploy_marker req = Some kw" "cache s = Some c" "Cache_get c (cache_key kw) = Some d" "d \<noteq> []"
  shows "calls (snd (node_setup x req s)) = calls s \<and>
         (\<forall>n h. map_of d ''name'' = Some n \<and> map_of d ''host'' = Some h \<and> config_ok (heap s) \<longrightarrow>
            (\<exists>fr s'. node_setup x req s = (Inr fr, s') \<and>
               cache s' = cache s \<and> uuid_count s' = uuid_count s \<and>
               node_name (fr_node fr) = n \<and> node_host (fr_node fr) = h \<and>
               node_data (fr_node fr) = d \<and>
               filter is_deploy (calls (snd (node_teardown x req fr s')))
                 = filter is_deploy (calls s)))"
proof (intro conjI allI impI)
  have "truthy_data (Cache_get c (cache_key kw))" using assms(3,4) by simp
  from provision_or_reuse_hit_calls[OF assms(2) this, of x]
  show "calls (snd (node_setup x req s)) = calls s"
    by (simp add: node_setup_calls select_node_deploy[OF assms(1)])
next
  fix n h
  assume "map_of d ''name'' = Some n \<and> map_of d ''host'' = Some h \<and> config_ok (heap s)"
  then have "\<exists>fr s'. node_setup x req s = (Inr fr, s') \<and>
           calls s' = calls s \<and> cache s' = cache s \<and> uuid_count s' = uuid_count s \<and>
           node_name (fr_node fr) = n \<and> node_host (fr_node fr) = h \<and>
           node_data (fr_node fr) = d \<and>
           filter is_deploy (calls (snd (node_teardown x req fr s'))) = filter is_deploy (calls s)"
    by (intro node_setup_hit_yields[OF assms(1-3)]) simp_all
  then show "\<exists>fr s'. node_setup x req s = (Inr fr, s') \<and>
               cache s' = cache s \<and> uuid_count s' = uuid_count s \<and>
               node_name (fr_node fr) = n \<and> node_host (fr_node fr) = h \<and>
               node_data (fr_node fr) = d \<and>
               filter is_deploy (calls (snd (node_teardown x req fr s')))
                 = filter is_deploy (calls s)"
    by blast
qed

theorem cache_hit_reuses_descriptor_witness:
  "cache_key example_kwargs = ''node/UbuntuLTS'' \<and>
   calls (snd (node_setup example_extern (deploy_request False) cached_state))
     = [Deploy_vm ''pytest-6f1c'' example_kwargs] \<and>
   (\<exists>fr s'. node_setup example_extern (deploy_request False) cached_state = (Inr fr, s') \<and>
      node_name (fr_node fr) = ''pytest-6f1c'' \<and> node_host (fr_node fr) = ''10.0.0.4'' \<and>
      node_data (fr_node fr) = cached_descriptor)"
proof -
  have "calls (snd (node_setup example_extern (deploy_request False) cached_state))
          = calls cached_state \<and>
        (\<forall>n h. map_of cached_descriptor ''name'' = Some n \<and>
               map_of cached_descriptor ''host'' = Some h \<and> config_ok (heap cached_state) \<longrightarrow>
           (\<exists>fr s'. node_setup example_extern (deploy_request False) cached_state = (Inr fr, s') \<and>
              cache s' = cache cached_state \<and> uuid_count s' = uuid_count cached_state \<and>
              node_name (fr_node fr) = n \<and> node_host (fr_node fr) = h \<and>
              node_data (fr_node fr) = cached_descriptor \<and>
              filter is_deploy
                (calls (snd (node_teardown example_extern (deploy_request False) fr s')))
                = filter is_deploy (calls cached_state)))"
    by (rule cache_hit_reuses_descriptor
          [where kw = example_kwargs
             and c = "[([''node'', ''UbuntuLTS''], Some cached_descriptor)]"])
       (simp_all add: example_key example_cached)
  then have "calls (snd (node_setup example_extern (deploy_request False) cached_state))
          = calls cached_state"
    and "\<exists>fr s'. node_setup example_extern (deploy_request False) cached_state = (Inr fr, s') \<and>
              node_name (fr_node fr) = ''pytest-6f1c'' \<and> node_host (fr_node fr) = ''10.0.0.4'' \<and>
              node_data (fr_node fr) = cached_descriptor"
    by (auto simp: config_ok_module_store)
  with example_key show ?thesis by simp
qed

text \<open>
  Claim C3, as the code has it. On the \<^verbatim>\<open>deploy\<close> branch, when the cache reads
  \<^verbatim>\<open>None\<close> or an empty dict under the computed key, the fixture makes exactly one call
  up to its \<^verbatim>\<open>yield\<close>: \<^verbatim>\<open>deploy_vm\<close> with the name \<^verbatim>\<open>pytest-\<close> followed by the
  uuid it draws for this call. The draw is a new one, so the name differs from the name
  of every other draw as long as \<^verbatim>\<open>uuid4\<close> never gives a value twice. When the call
  returns, the returned descriptor with \<^verbatim>\<open>name\<close> and \<^verbatim>\<open>host\<close> set is what
  \<^verbatim>\<open>cache.set\<close> is given under the key; an error \<^verbatim>\<open>cache.set\<close> raises leaves the
  fixture, and otherwise the yielded node has that name, the returned host and that
  descriptor. When the cache keeps a file for the key (the file system takes the file,
  no stored key is a directory on its way or lies below it, and no component of the key
  is \<^verbatim>\<open>..\<close>), a lookup of the key then returns that descriptor and the next run of the
  fixture with the same request is a hit: no further call, the same name, host and
  descriptor.
\<close>

theorem cache_miss_provisions_once:
  assumes "deploy_marker req = Some kw" "cache s = Some c"
    "\<not> truthy_data (Cache_get c (cache_key kw))"
  shows "calls (snd (node_setup x req s))
           = calls s @ [Deploy_vm (''pytest-'' @ uuid4 x (uuid_count s)) kw] \<and>
         uuid_count (snd (node_setup x req s)) = Suc (uuid_count s) \<and>
         (inj (uuid4 x) \<longrightarrow>
            (\<forall>m. m \<noteq> uuid_count s \<longrightarrow>
               ''pytest-'' @ uuid4 x m \<noteq> ''pytest-'' @ uuid4 x (uuid_count s))) \<and>
         (\<forall>data host.
            vm_create x (calls s) (''pytest-'' @ uuid4 x (uuid_count s)) kw = Inr data \<and>
            map_of data ''publicIpAddress'' = Some host \<longrightarrow>
            (\<forall>err. cache_write x c (getvaluepath (cache_key kw)) = Raised err \<longrightarrow>
               fst (node_setup x req s) = Inl err) \<and>
            (config_ok (heap s) \<and>
             (\<forall>err. cache_write x c (getvaluepath (cache_key kw)) \<noteq> Raised err) \<longrightarrow>
             (\<exists>fr s' c'. node_setup x req s = (Inr fr, s') \<and>
                node_name (fr_node fr) = ''pytest-'' @ uuid4 x (uuid_count s) \<and>
                node_host (fr_node fr) = host \<and>
                map_of (node_data (fr_node fr)) =
                  (map_of data)(''name'' \<mapsto> ''pytest-'' @ uuid4 x (uuid_count s),
                                ''host'' \<mapsto> host) \<and>
                truthy_data (Some (node_data (fr_node fr))) \<and>
                Cache_set (cache_write x) c (cache_key kw) (Some (node_data (fr_node fr)))
                  = Inr c' \<and>
                cache s' = Some c' \<and>
                (cache_write x c (getvaluepath (cache_key kw)) = Written \<and>
                 storable c (getvaluepath (cache_key kw)) \<and>
                 ''..'' \<notin> set (getvaluepath (cache_key kw)) \<longrightarrow>
                   Cache_get c' (cache_key kw) = Some (node_data (fr_node fr)) \<and>
                   (\<exists>fr2 s2. node_setup x req s' = (Inr fr2, s2) \<and> calls s2 = calls s' \<and>
                      node_name (fr_node fr2) = node_name (fr_node fr) \<and>
                      node_host (fr_node fr2) = node_host (fr_node fr) \<and>
                      node_data (fr_node fr2) = node_data (fr_node fr))))))"
proof (intro conjI allI impI)
  from provision_or_reuse_miss_calls[OF assms(2,3), of x]
  show "calls (snd (node_setup x req s))
          = calls s @ [Deploy_vm (''pytest-'' @ uuid4 x (uuid_count s)) kw]"
    by (simp add: node_setup_calls select_node_deploy[OF assms(1)])
next
  from provision_or_reuse_miss_uuid_count[OF assms(2,3), of x]
  show "uuid_count (snd (node_setup x req s)) = Suc (uuid_count s)"
    by (simp add: node_setup_uuid_count select_node_deploy[OF assms(1)])
next
  fix m
  assume "inj (uuid4 x)" "m \<noteq> uuid_count s"
  then show "''pytest-'' @ uuid4 x m \<noteq> ''pytest-'' @ uuid4 x (uuid_count s)"
    by (auto dest: injD)
next
  fix data host err
  assume "vm_create x (calls s) (''pytest-'' @ uuid4 x (uuid_count s)) kw = Inr data \<and>
          map_of data ''publicIpAddress'' = Some host"
  then have a: "vm_create x (calls s) (''pytest-'' @ uuid4 x (uuid_count s)) kw = Inr data"
    "map_of data ''publicIpAddress'' = Some host"
    by simp_all
  assume "cache_write x c (getvaluepath (cache_key kw)) = Raised err"
  then have "Cache_set (cache_write x) c (cache_key kw)
       (Some (dict_set ''host'' host
                (dict_set ''name'' (''pytest-'' @ uuid4 x (uuid_count s)) data)))
       = Inl err"
    by (rule Cache_set_raised)
  from node_setup_miss_raises[OF assms a this]
  show "fst (node_setup x req s) = Inl err" by simp
next
  fix data host
  assume "vm_create x (calls s) (''pytest-'' @ uuid4 x (uuid_count s)) kw = Inr data \<and>
          map_of data ''publicIpAddress'' = Some host"
  then have a: "vm_create x (calls s) (''pytest-'' @ uuid4 x (uuid_count s)) kw = Inr data"
    "map_of data ''publicIpAddress'' = Some host"
    by simp_all
  assume "config_ok (heap s) \<and>
          (\<forall>err. cache_write x c (getvaluepath (cache_key kw)) \<noteq> Raised err)"
  then have conf: "config_ok (heap s)"
    and nr: "\<forall>err. cache_write x c (getvaluepath (cache_key kw)) \<noteq> Raised err"
    by simp_all
  let ?name = "''pytest-'' @ uuid4 x (uuid_count s)"
  let ?d = "dict_set ''host'' host (dict_set ''name'' ?name data)"
  from nr Cache_set_returns[of "cache_write x" c "cache_key kw" "Some ?d"] obtain c' where
    set: "Cache_set (cache_write x) c (cache_key kw) (Some ?d) = Inr c'"
    by blast
  from node_setup_miss_yields[OF assms a set conf] obtain h' where
    yielded: "node_setup x req s =
      (Inr \<lparr>fr_key = Some (cache_key kw), fr_name = ?name, fr_host = host, fr_data = ?d,
            fr_node = \<lparr>node_host = host, node_config = length (heap s),
                       node_inline_ssh_env = True, node_name = ?name, node_data = ?d\<rparr>\<rparr>,
       s\<lparr>uuid_count := Suc (uuid_count s), calls := calls s @ [Deploy_vm ?name kw],
         cache := Some c', heap := h'\<rparr>)"
    and ok: "config_ok h'"
    by blast
  let ?s' = "s\<lparr>uuid_count := Suc (uuid_count s), calls := calls s @ [Deploy_vm ?name kw],
               cache := Some c', heap := h'\<rparr>"
  have stored: "Cache_get c' (cache_key kw) = Some ?d"
    if "cache_write x c (getvaluepath (cache_key kw)) = Written"
      "storable c (getvaluepath (cache_key kw))"
    using that set Cache_set_written[of "cache_write x" c "cache_key kw" "Some ?d"]
      Cache_get_dict_set[of c "cache_key kw" "Some ?d"]
    by simp
  have again: "\<exists>fr2 s2. node_setup x req ?s' = (Inr fr2, s2) \<and> calls s2 = calls ?s' \<and>
                 node_name (fr_node fr2) = ?name \<and> node_host (fr_node fr2) = host \<and>
                 node_data (fr_node fr2) = ?d"
    if "cache_write x c (getvaluepath (cache_key kw)) = Written"
      "storable c (getvaluepath (cache_key kw))"
  proof -
    have hit: "Cache_get c' (cache_key kw) = Some ?d"
      using that by (rule stored)
    have cs: "cache ?s' = Some c'" by simp
    have nm: "map_of ?d ''name'' = Some ?name" and ho: "map_of ?d ''host'' = Some host"
      by (simp_all add: map_of_dict_set)
    have okk: "config_ok (heap ?s')" using ok by simp
    from node_setup_hit[OF assms(1) cs hit nm ho okk, of x]
    show ?thesis by auto
  qed
  from yielded set again stored
  show "\<exists>fr s' c'. node_setup x req s = (Inr fr, s') \<and>
                node_name (fr_node fr) = ''pytest-'' @ uuid4 x (uuid_count s) \<and>
                node_host (fr_node fr) = host \<and>
                map_of (node_data (fr_node fr)) =
                  (map_of data)(''name'' \<mapsto> ''pytest-'' @ uuid4 x (uuid_count s),
                                ''host'' \<mapsto> host) \<and>
                truthy_data (Some (node_data (fr_node fr))) \<and>
                Cache_set (cache_write x) c (cache_key kw) (Some (node_data (fr_node fr)))
                  = Inr c' \<and>
                cache s' = Some c' \<and>
                (cache_write x c (getvaluepath (cache_key kw)) = Written \<and>
                 storable c (getvaluepath (cache_key kw)) \<and>
                 ''..'' \<notin> set (getvaluepath (cache_key kw)) \<longrightarrow>
                   Cache_get c' (cache_key kw) = Some (node_data (fr_node fr)) \<and>
                   (\<exists>fr2 s2. node_setup x req s' = (Inr fr2, s2) \<and> calls s2 = calls s' \<and>
                      node_name (fr_node fr2) = node_name (fr_node fr) \<and>
                      node_host (fr_node fr2) = node_host (fr_node fr) \<and>
                      node_data (fr_node fr2) = node_data (fr_node fr)))"
    by (simp add: map_of_dict_set dict_set_not_Nil)
qed

lemma inj_counting: "inj (uuid4 counting_extern)"
proof (rule injI)
  fix m n
  assume "uuid4 counting_extern m = uuid4 counting_extern n"
  then have "length (replicate m (CHR ''0'')) = length (replicate n (CHR ''0''))"
    by (simp add: counting_extern_def)
  then show "m = n" by simp
qed

lemma example_storable: "storable [] (getvaluepath (cache_key example_kwargs))"
  by (simp add: example_key example_path storable_def)

lemma nul_path: "getvaluepath (cache_key nul_kwargs) = [''node'', [CHR ''a'', CHR 0x00]]"
  by (simp add: cache_key_def dict_values_def getvaluepath_def)

theorem cache_miss_provisions_once_witness:
  "inj (uuid4 counting_extern) \<and>
   cache_write counting_extern [] (getvaluepath (cache_key example_kwargs)) = Written \<and>
   storable [] (getvaluepath (cache_key example_kwargs)) \<and>
   calls (snd (node_setup counting_extern (deploy_request False) fresh_state))
     = [Deploy_vm ''pytest-6f1c-'' example_kwargs] \<and>
   ''pytest-'' @ uuid4 counting_extern 1 \<noteq> ''pytest-6f1c-'' \<and>
   (\<exists>fr s'. node_setup counting_extern (deploy_request False) fresh_state = (Inr fr, s') \<and>
      node_name (fr_node fr) = ''pytest-6f1c-'' \<and> node_host (fr_node fr) = ''10.0.0.4'' \<and>
      map_of (node_data (fr_node fr)) ''name'' = Some ''pytest-6f1c-'' \<and>
      map_of (node_data (fr_node fr)) ''host'' = Some ''10.0.0.4'' \<and>
      (\<exists>c'. cache s' = Some c' \<and>
            Cache_get c' ''node/UbuntuLTS'' = Some (node_data (fr_node fr))) \<and>
      (\<exists>fr2 s2. node_setup counting_extern (deploy_request False) s' = (Inr fr2, s2) \<and>
         calls s2 = calls s' \<and> node_name (fr_node fr2) = ''pytest-6f1c-'')) \<and>
   cache_write strict_extern [] (getvaluepath (cache_key nul_kwargs)) = Raised ValueError \<and>
   calls (snd (node_setup strict_extern nul_deploy_request fresh_state))
     = [Deploy_vm ''pytest-6f1c'' nul_kwargs] \<and>
   fst (node_setup strict_extern nul_deploy_request fresh_state) = Inl ValueError"
proof -
  have u0: "uuid4 counting_extern 0 = ''6f1c-''" by (simp add: counting_extern_def)
  have vm: "vm_create counting_extern [] ''pytest-6f1c-'' example_kwargs
              = Inr [(''publicIpAddress'', ''10.0.0.4'')]"
    by (simp add: counting_extern_def)
  have w: "cache_write counting_extern [] [''node'', ''UbuntuLTS''] = Written"
    by (simp add: counting_extern_def)
  have miss: "\<not> truthy_data (Cache_get [] (cache_key example_kwargs))"
    by (simp add: Cache_get_def Let_def)
  from cache_miss_provisions_once
         [where req = "deploy_request False" and s = fresh_state and x = counting_extern,
          OF _ _ miss]
  have one: "calls (snd (node_setup counting_extern (deploy_request False) fresh_state))
               = [Deploy_vm ''pytest-6f1c-'' example_kwargs]"
    and fresh: "inj (uuid4 counting_extern) \<longrightarrow>
            (\<forall>m. m \<noteq> 0 \<longrightarrow> ''pytest-'' @ uuid4 counting_extern m \<noteq> ''pytest-6f1c-'')"
    and "\<exists>fr s' c'. node_setup counting_extern (deploy_request False) fresh_state = (Inr fr, s') \<and>
           node_name (fr_node fr) = ''pytest-6f1c-'' \<and>
           node_host (fr_node fr) = ''10.0.0.4'' \<and>
           map_of (node_data (fr_node fr)) =
             (map_of [(''publicIpAddress'', ''10.0.0.4'')])
               (''name'' \<mapsto> ''pytest-6f1c-'', ''host'' \<mapsto> ''10.0.0.4'') \<and>
           cache s' = Some c' \<and>
           Cache_get c' (cache_key example_kwargs) = Some (node_data (fr_node fr)) \<and>
           (\<exists>fr2 s2. node_setup counting_extern (deploy_request False) s' = (Inr fr2, s2) \<and>
              calls s2 = calls s' \<and>
              node_name (fr_node fr2) = node_name (fr_node fr))"
    using example_storable w
    by (auto simp: u0 vm config_ok_module_store example_key example_path)
  then obtain fr s' c' fr2 s2 where
    a: "node_setup counting_extern (deploy_request False) fresh_state = (Inr fr, s')"
       "node_name (fr_node fr) = ''pytest-6f1c-''" "node_host (fr_node fr) = ''10.0.0.4''"
       "map_of (node_data (fr_node fr)) =
             (map_of [(''publicIpAddress'', ''10.0.0.4'')])
               (''name'' \<mapsto> ''pytest-6f1c-'', ''host'' \<mapsto> ''10.0.0.4'')"
       "cache s' = Some c'"
       "Cache_get c' (cache_key example_kwargs) = Some (node_data (fr_node fr))"
    and b: "node_setup counting_extern (deploy_request False) s' = (Inr fr2, s2)"
       "calls s2 = calls s'"
       "node_name (fr_node fr2) = node_name (fr_node fr)"
    by auto
  have m: "map_of (node_data (fr_node fr)) ''name'' = Some ''pytest-6f1c-''"
       "map_of (node_data (fr_node fr)) ''host'' = Some ''10.0.0.4''"
    by (simp_all add: a(4))
  from fresh inj_counting have other: "''pytest-'' @ uuid4 counting_extern 1 \<noteq> ''pytest-6f1c-''"
    by simp
  from a(6) have hit: "Cache_get c' ''node/UbuntuLTS'' = Some (node_data (fr_node fr))"
    by (simp add: example_key)
  from b(3) a(2) have n2: "node_name (fr_node fr2) = ''pytest-6f1c-''" by simp
  from w have w': "cache_write counting_extern [] (getvaluepath (cache_key example_kwargs)) = Written"
    by (simp add: example_key example_path)
  have miss2: "\<not> truthy_data (Cache_get [] (cache_key nul_kwargs))"
    by (simp add: Cache_get_def Let_def)
  have r: "cache_write strict_extern [] (getvaluepath (cache_key nul_kwargs)) = Raised ValueError"
    by (simp add: nul_path strict_extern_def)
  have u: "uuid4 strict_extern 0 = ''6f1c''" by (simp add: strict_extern_def)
  have vm2: "vm_create strict_extern [] ''pytest-6f1c'' nul_kwargs
               = Inr [(''publicIpAddress'', ''10.0.0.4'')]"
    by (simp add: strict_extern_def)
  note T = cache_miss_provisions_once
         [where req = nul_deploy_request and s = fresh_state and x = strict_extern,
          OF _ _ miss2]
  from T have one2: "calls (snd (node_setup strict_extern nul_deploy_request fresh_state))
               = [Deploy_vm ''pytest-6f1c'' nul_kwargs]"
    by (simp add: u)
  from T vm2 r
  have raised: "fst (node_setup strict_extern nul_deploy_request fresh_state) = Inl ValueError"
    by (auto simp: u)
  from inj_counting w' example_storable one other a(1-3,5) m hit b(1,2) n2
  have first: "inj (uuid4 counting_extern) \<and>
   cache_write counting_extern [] (getvaluepath (cache_key example_kwargs)) = Written \<and>
   storable [] (getvaluepath (cache_key example_kwargs)) \<and>
   calls (snd (node_setup counting_extern (deploy_request False) fresh_state))
     = [Deploy_vm ''pytest-6f1c-'' example_kwargs] \<and>
   ''pytest-'' @ uuid4 counting_extern 1 \<noteq> ''pytest-6f1c-'' \<and>
   (\<exists>fr s'. node_setup counting_extern (deploy_request False) fresh_state = (Inr fr, s') \<and>
      node_name (fr_node fr) = ''pytest-6f1c-'' \<and> node_host (fr_node fr) = ''10.0.0.4'' \<and>
      map_of (node_data (fr_node fr)) ''name'' = Some ''pytest-6f1c-'' \<and>
      map_of (node_data (fr_node fr)) ''host'' = Some ''10.0.0.4'' \<and>
      (\<exists>c'. cache s' = Some c' \<and>
            Cache_get c' ''node/UbuntuLTS'' = Some (node_data (fr_node fr))) \<and>
      (\<exists>fr2 s2. node_setup counting_extern (deploy_request False) s' = (Inr fr2, s2) \<and>
         calls s2 = calls s' \<and> node_name (fr_node fr2) = ''pytest-6f1c-''))"
    by blast
  from first r one2 raised show ?thesis by (intro conjI) (elim conjE, assumption)+
qed

text \<open>
  Claim C3 as stated fails where the cache cannot keep the key. A test marked
  \<^verbatim>\<open>deploy()\<close> leaves the file \<^verbatim>\<open>node\<close>; for a test marked
  \<^verbatim>\<open>deploy(vm_image="UbuntuLTS", setup="")\<close> the key \<^verbatim>\<open>node/UbuntuLTS\<close> then reads as
  \<^verbatim>\<open>None\<close>, \<^verbatim>\<open>cache.set\<close> stores nothing, and the next run of the fixture is a miss
  again and calls \<^verbatim>\<open>deploy_vm\<close> a second time.
\<close>

theorem cache_miss_collision_counterexample:
  "cache (snd (node_fixture two_uuid_extern bare_deploy_request fresh_state))
     = Some [([''node''], None)] \<and>
   Cache_get [([''node''], None)] (cache_key example_kwargs) = None \<and>
   cache (snd (node_setup two_uuid_extern (deploy_request True) collided_state))
     = Some [([''node''], None)] \<and>
   calls (snd (node_setup two_uuid_extern (deploy_request True)
                 (snd (node_setup two_uuid_extern (deploy_request True) collided_state))))
     = [Deploy_vm ''pytest-6f1c'' example_kwargs, Deploy_vm ''pytest-9b2e'' example_kwargs]"
  by (simp add: node_fixture_def node_setup_def node_teardown_def select_node_def
      provision_or_reuse_def cache_miss_def deploy_vm_def delete_vm_def cache_set_def
      Cache_get_def Cache_set_def getvaluepath_def storable_def proper_prefix_def
      cache_key_def dict_values_def subscript_def make_ssh_config_def dict_copy_def
      alloc_def module_store_def config_addr_def two_uuid_extern_def Let_def)

text \<open>
  Claim C4, as the code has it. For a frame the fixture yielded on the \<^verbatim>\<open>deploy\<close>
  branch, and a state whose cache is there: with \<^verbatim>\<open>keep_vms\<close> the teardown changes
  nothing, so there is no \<^verbatim>\<open>delete_vm\<close> call and the cache entry stays as it was;
  without \<^verbatim>\<open>keep_vms\<close> the teardown makes exactly one call, \<^verbatim>\<open>delete_vm\<close> of the
  node's name. When that call returns, \<^verbatim>\<open>cache.set\<close> is given \<^verbatim>\<open>None\<close> for the key:
  when the file system takes the write the teardown ends normally and the key reads as
  \<^verbatim>\<open>None\<close>; when it refuses, the teardown ends normally and the cache is as it was;
  when \<^verbatim>\<open>cache.set\<close> raises, the error leaves the fixture. When the \<^verbatim>\<open>delete_vm\<close>
  call raises, the error leaves the fixture and the cache is as it was.
\<close>

theorem teardown_destroys_or_retains:
  assumes "deploy_marker req = Some kw" "node_setup x req s0 = (Inr fr, s1)" "cache s = Some c"
  shows "(keep_vms req \<longrightarrow> node_teardown x req fr s = (Inr (), s)) \<and>
         (\<not> keep_vms req \<longrightarrow>
            calls (snd (node_teardown x req fr s))
              = calls s @ [Delete_vm (node_name (fr_node fr))] \<and>
            (group_delete x (calls s) (node_name (fr_node fr)) = None \<longrightarrow>
               (cache_write x c (getvaluepath (cache_key kw)) = Written \<longrightarrow>
                  (\<exists>c'. Cache_set (cache_write x) c (cache_key kw) None = Inr c' \<and>
                        node_teardown x req fr s =
                          (Inr (), s\<lparr>calls := calls s @ [Delete_vm (node_name (fr_node fr))],
                                     cache := Some c'\<rparr>) \<and>
                        Cache_get c' (cache_key kw) = None)) \<and>
               (cache_write x c (getvaluepath (cache_key kw)) = Refused \<longrightarrow>
                  node_teardown x req fr s =
                    (Inr (), s\<lparr>calls := calls s @ [Delete_vm (node_name (fr_node fr))]\<rparr>)) \<and>
               (\<forall>err. cache_write x c (getvaluepath (cache_key kw)) = Raised err \<longrightarrow>
                  node_teardown x req fr s =
                    (Inl err, s\<lparr>calls := calls s @ [Delete_vm (node_name (fr_node fr))]\<rparr>))) \<and>
            (\<forall>err. group_delete x (calls s) (node_name (fr_node fr)) = Some err \<longrightarrow>
               node_teardown x req fr s =
                 (Inl err, s\<lparr>calls := calls s @ [Delete_vm (node_name (fr_node fr))]\<rparr>)))"
proof -
  from node_setup_deploy_key[OF assms(1,2)]
  have k: "fr_key fr = Some (cache_key kw)" and n: "fr_name fr = node_name (fr_node fr)"
    by simp_all
  let ?p = "getvaluepath (cache_key kw)"
  let ?s' = "s\<lparr>calls := calls s @ [Delete_vm (node_name (fr_node fr))]\<rparr>"
  have same: "?s'\<lparr>cache := Some c\<rparr> = ?s'"
    using assms(3) by simp
  have written: "\<exists>c'. Cache_set (cache_write x) c (cache_key kw) None = Inr c' \<and>
                   node_teardown x req fr s = (Inr (), ?s'\<lparr>cache := Some c'\<rparr>) \<and>
                   Cache_get c' (cache_key kw) = None"
    if "\<not> keep_vms req" "group_delete x (calls s) (node_name (fr_node fr)) = None"
      "cache_write x c ?p = Written"
  proof -
    from Cache_get_cleared[of "cache_write x" c "cache_key kw"] that(3) obtain c' where
      c': "Cache_set (cache_write x) c (cache_key kw) None = Inr c'"
        "Cache_get c' (cache_key kw) = None"
      by blast
    from node_teardown_deleted[OF that(1) k cache_key_not_Nil assms(3) _ c'(1)] that(2)
    have "node_teardown x req fr s = (Inr (), ?s'\<lparr>cache := Some c'\<rparr>)"
      by (simp add: n)
    with c' show ?thesis by blast
  qed
  have refused: "node_teardown x req fr s = (Inr (), ?s')"
    if "\<not> keep_vms req" "group_delete x (calls s) (node_name (fr_node fr)) = None"
      "cache_write x c ?p = Refused"
  proof -
    from that(3) have "Cache_set (cache_write x) c (cache_key kw) None = Inr c"
      by (rule Cache_set_refused)
    from node_teardown_deleted[OF that(1) k cache_key_not_Nil assms(3) _ this] that(2)
    have "node_teardown x req fr s = (Inr (), ?s'\<lparr>cache := Some c\<rparr>)"
      by (simp add: n)
    with same show ?thesis by simp
  qed
  have raised: "node_teardown x req fr s = (Inl err, ?s')"
    if "\<not> keep_vms req" "group_delete x (calls s) (node_name (fr_node fr)) = None"
      "cache_write x c ?p = Raised err" for err
  proof -
    from that(3) have "Cache_set (cache_write x) c (cache_key kw) None = Inl err"
      by (rule Cache_set_raised)
    from node_teardown_set_raises[OF that(1) k cache_key_not_Nil assms(3) _ this] that(2)
    show ?thesis by (simp add: n)
  qed
  have fails: "node_teardown x req fr s = (Inl err, ?s')"
    if "\<not> keep_vms req" "group_delete x (calls s) (node_name (fr_node fr)) = Some err" for err
    using node_teardown_delete_fails[OF that(1) k cache_key_not_Nil, of x s err] that(2)
    by (simp add: n)
  have one: "calls (snd (node_teardown x req fr s))
               = calls s @ [Delete_vm (node_name (fr_node fr))]"
    if "\<not> keep_vms req"
    using node_teardown_delete[OF that k cache_key_not_Nil, of x s] by (simp add: n)
  from node_teardown_keep[of req x fr s] one written refused raised fails
  show ?thesis by blast
qed

theorem teardown_destroys_or_retains_witness:
  "(\<exists>fr s1. node_setup example_extern (deploy_request True) cached_state = (Inr fr, s1) \<and>
      node_teardown example_extern (deploy_request True) fr s1 = (Inr (), s1) \<and>
      cache s1 = cache cached_state) \<and>
   (\<exists>fr s1 s2. node_setup example_extern (deploy_request False) cached_state = (Inr fr, s1) \<and>
      node_teardown example_extern (deploy_request False) fr s1 = (Inr (), s2) \<and>
      calls s2 = [Deploy_vm ''pytest-6f1c'' example_kwargs, Delete_vm ''pytest-6f1c''] \<and>
      cache s2 = Some [([''node'', ''UbuntuLTS''], None)]) \<and>
   (\<exists>fr s1 s2. node_setup failing_delete_extern (deploy_request False) cached_state
                  = (Inr fr, s1) \<and>
      node_teardown failing_delete_extern (deploy_request False) fr s1
        = (Inl UnexpectedExit, s2) \<and>
      cache s2 = cache cached_state) \<and>
   (\<exists>fr s1 s2. node_setup refusing_extern (deploy_request False) cached_state
                  = (Inr fr, s1) \<and>
      node_teardown refusing_extern (deploy_request False) fr s1 = (Inr (), s2) \<and>
      calls s2 = [Deploy_vm ''pytest-6f1c'' example_kwargs, Delete_vm ''pytest-6f1c''] \<and>
      cache s2 = cache cached_state)"
proof -
  let ?c = "[([''node'', ''UbuntuLTS''], Some cached_descriptor)]"
  from cached_setup[of True] obtain fr s1 where
    k: "node_setup example_extern (deploy_request True) cached_state = (Inr fr, s1)"
    and k1: "cache s1 = Some ?c"
    by auto
  from teardown_destroys_or_retains[where req = "deploy_request True" and s = s1, OF _ k k1]
  have keep: "node_teardown example_extern (deploy_request True) fr s1 = (Inr (), s1)"
    by simp
  from cached_setup[of False] obtain fr' s1' where
    d: "node_setup example_extern (deploy_request False) cached_state = (Inr fr', s1')"
    and d1: "cache s1' = Some ?c" "calls s1' = [Deploy_vm ''pytest-6f1c'' example_kwargs]"
      "node_name (fr_node fr') = ''pytest-6f1c''"
    by auto
  from teardown_destroys_or_retains[where req = "deploy_request False" and s = s1', OF _ d d1(1)]
  have "\<exists>c'. Cache_set (cache_write example_extern) ?c (cache_key example_kwargs) None = Inr c' \<and>
          node_teardown example_extern (deploy_request False) fr' s1' =
            (Inr (), s1'\<lparr>calls := calls s1' @ [Delete_vm (node_name (fr_node fr'))],
                         cache := Some c'\<rparr>)"
    by auto
  moreover have "Cache_set (cache_write example_extern) ?c (cache_key example_kwargs) None
                   = Inr [([''node'', ''UbuntuLTS''], None)]"
    by (simp add: Cache_set_def Let_def example_key example_path storable_def proper_prefix_def)
  ultimately have del: "node_teardown example_extern (deploy_request False) fr' s1' =
          (Inr (), s1'\<lparr>calls := [Deploy_vm ''pytest-6f1c'' example_kwargs, Delete_vm ''pytest-6f1c''],
                       cache := Some [([''node'', ''UbuntuLTS''], None)]\<rparr>)"
    using d1 by auto
  from failing_setup obtain fr'' s1'' where
    f: "node_setup failing_delete_extern (deploy_request False) cached_state = (Inr fr'', s1'')"
    and f1: "cache s1'' = Some ?c"
    by auto
  from teardown_destroys_or_retains
         [where req = "deploy_request False" and s = s1'', OF _ f f1]
  have fail: "node_teardown failing_delete_extern (deploy_request False) fr'' s1'' =
          (Inl UnexpectedExit, s1''\<lparr>calls := calls s1'' @ [Delete_vm (node_name (fr_node fr''))]\<rparr>)"
    by (simp add: failing_delete_extern_def)
  from k keep k1 have A: "\<exists>fr s1. node_setup example_extern (deploy_request True) cached_state = (Inr fr, s1) \<and>
      node_teardown example_extern (deploy_request True) fr s1 = (Inr (), s1) \<and>
      cache s1 = cache cached_state"
    by auto
  from d del have B: "\<exists>fr s1 s2. node_setup example_extern (deploy_request False) cached_state = (Inr fr, s1) \<and>
      node_teardown example_extern (deploy_request False) fr s1 = (Inr (), s2) \<and>
      calls s2 = [Deploy_vm ''pytest-6f1c'' example_kwargs, Delete_vm ''pytest-6f1c''] \<and>
      cache s2 = Some [([''node'', ''UbuntuLTS''], None)]"
    by auto
  from f fail f1 have C: "\<exists>fr s1 s2. node_setup failing_delete_extern (deploy_request False) cached_state
                  = (Inr fr, s1) \<and>
      node_teardown failing_delete_extern (deploy_request False) fr s1
        = (Inl UnexpectedExit, s2) \<and>
      cache s2 = cache cached_state"
    by auto
  from refusing_setup obtain fr3 s3 where
    r: "node_setup refusing_extern (deploy_request False) cached_state = (Inr fr3, s3)"
    and r1: "cache s3 = Some ?c" "calls s3 = [Deploy_vm ''pytest-6f1c'' example_kwargs]"
      "node_name (fr_node fr3) = ''pytest-6f1c''"
    by auto
  from teardown_destroys_or_retains
         [where req = "deploy_request False" and s = s3, OF _ r r1(1)]
  have refuse: "node_teardown refusing_extern (deploy_request False) fr3 s3 =
          (Inr (), s3\<lparr>calls := calls s3 @ [Delete_vm (node_name (fr_node fr3))]\<rparr>)"
    by (simp add: refusing_extern_def)
  from r refuse r1 have D: "\<exists>fr s1 s2. node_setup refusing_extern (deploy_request False) cached_state
                  = (Inr fr, s1) \<and>
      node_teardown refusing_extern (deploy_request False) fr s1 = (Inr (), s2) \<and>
      calls s2 = [Deploy_vm ''pytest-6f1c'' example_kwargs, Delete_vm ''pytest-6f1c''] \<and>
      cache s2 = cache cached_state"
    by auto
  from A B C D show ?thesis by blast
qed

text \<open>
  Claim C4 as stated fails when \<^verbatim>\<open>az group delete\<close> fails: the one \<^verbatim>\<open>delete_vm\<close>
  call raises, the fixture ends with that error, and the key still reads as the
  descriptor that was stored.
\<close>

theorem teardown_delete_fails_counterexample:
  "fst (node_fixture failing_delete_extern (deploy_request False) cached_state)
     = Inl UnexpectedExit \<and>
   calls (snd (node_fixture failing_delete_extern (deploy_request False) cached_state))
     = [Deploy_vm ''pytest-6f1c'' example_kwargs, Delete_vm ''pytest-6f1c''] \<and>
   cache (snd (node_fixture failing_delete_extern (deploy_request False) cached_state))
     = Some [([''node'', ''UbuntuLTS''], Some cached_descriptor)] \<and>
   Cache_get [([''node'', ''UbuntuLTS''], Some cached_descriptor)] (cache_key example_kwargs)
     = Some cached_descriptor"
  by (simp add: node_fixture_def node_setup_def node_teardown_def select_node_def
      provision_or_reuse_def delete_vm_def
      Cache_get_def getvaluepath_def storable_def proper_prefix_def
      cache_key_def dict_values_def subscript_def make_ssh_config_def dict_copy_def
      alloc_def module_store_def config_addr_def failing_delete_extern_def Let_def)


text \<open>
  Claim C5. With no \<^verbatim>\<open>deploy\<close> marker and a \<^verbatim>\<open>connect\<close> marker whose first argument
  is \<open>h\<close>, the fixture yields a node named \<^verbatim>\<open>pre-deployed:\<close>\<open>h\<close> on host \<open>h\<close> with an
  empty descriptor, having made no call and written nothing to the cache; and its
  teardown, from any state, makes no call and leaves the cache alone.
\<close>

theorem connect_only_node:
  assumes "deploy_marker req = None" "connect_marker req = Some (h # rest)" "config_ok (heap s)"
  shows "\<exists>fr s'. node_setup x req s = (Inr fr, s') \<and>
           node_name (fr_node fr) = ''pre-deployed:'' @ h \<and> node_host (fr_node fr) = h \<and>
           node_data (fr_node fr) = [] \<and> calls s' = calls s \<and> cache s' = cache s \<and>
           (\<forall>s2. calls (snd (node_teardown x req fr s2)) = calls s2 \<and>
                 cache (snd (node_teardown x req fr s2)) = cache s2)"
proof -
  from node_setup_selected[OF select_node_connect[OF assms(1,2)] assms(3)]
  obtain h' where "node_setup x req s =
      (Inr \<lparr>fr_key = None, fr_name = ''pre-deployed:'' @ h, fr_host = h, fr_data = [],
            fr_node = \<lparr>node_host = h, node_config = length (heap s),
                       node_inline_ssh_env = True, node_name = ''pre-deployed:'' @ h,
                       node_data = []\<rparr>\<rparr>,
       s\<lparr>heap := h'\<rparr>)" by blast
  then show ?thesis
    by (simp add: node_teardown_unbound_calls)
qed

theorem connect_only_node_witness:
  "\<exists>fr s'. node_setup example_extern connect_request fresh_state = (Inr fr, s') \<and>
     node_name (fr_node fr) = ''pre-deployed:203.0.113.5'' \<and>
     node_host (fr_node fr) = ''203.0.113.5'' \<and> node_data (fr_node fr) = [] \<and>
     calls s' = [] \<and>
     calls (snd (node_teardown example_extern connect_request fr s')) = []"
proof -
  have "\<exists>fr s'. node_setup example_extern connect_request fresh_state = (Inr fr, s') \<and>
           node_name (fr_node fr) = ''pre-deployed:'' @ ''203.0.113.5'' \<and>
           node_host (fr_node fr) = ''203.0.113.5'' \<and>
           node_data (fr_node fr) = [] \<and> calls s' = calls fresh_state \<and>
           cache s' = cache fresh_state \<and>
           (\<forall>s2. calls (snd (node_teardown example_extern connect_request fr s2)) = calls s2 \<and>
                 cache (snd (node_teardown example_extern connect_request fr s2)) = cache s2)"
    by (rule connect_only_node[where rest = "[]"]) (simp_all add: config_ok_module_store)
  then show ?thesis by auto
qed

text \<open>
  Claim C6. With no \<^verbatim>\<open>deploy\<close> marker and without \<^verbatim>\<open>keep_vms\<close>, the fixture yields
  with \<^verbatim>\<open>key\<close> unbound, and its teardown, from any state, raises
  \<^verbatim>\<open>UnboundLocalError\<close> (a \<^verbatim>\<open>NameError\<close>) for \<^verbatim>\<open>key\<close>: so does the whole fixture,
  although nothing was provisioned.
\<close>

theorem teardown_key_unbound:
  assumes "deploy_marker req = None" "\<not> keep_vms req" "connect_marker req \<noteq> Some []"
    "config_ok (heap s)"
  shows "\<exists>fr s'. node_setup x req s = (Inr fr, s') \<and> fr_key fr = None \<and> calls s' = calls s \<and>
           (\<forall>s2. node_teardown x req fr s2 = (Inl (UnboundLocalError ''key''), s2)) \<and>
           node_fixture x req s = (Inl (UnboundLocalError ''key''), s')"
proof -
  have "\<exists>name host. select_node x req s = (Inr (None, name, host, []), s)"
  proof (cases "connect_marker req")
    case None
    with assms(1) show ?thesis by (simp add: select_node_local)
  next
    case (Some args)
    with assms(3) obtain h rest where "args = h # rest" by (cases args) auto
    with Some assms(1) show ?thesis by (simp add: select_node_connect)
  qed
  then obtain name host where sel: "select_node x req s = (Inr (None, name, host, []), s)"
    by blast
  from node_setup_selected[OF sel assms(4)] obtain h' where
    "node_setup x req s =
      (Inr \<lparr>fr_key = None, fr_name = name, fr_host = host, fr_data = [],
            fr_node = \<lparr>node_host = host, node_config = length (heap s),
                       node_inline_ssh_env = True, node_name = name, node_data = []\<rparr>\<rparr>,
       s\<lparr>heap := h'\<rparr>)" by blast
  then show ?thesis
    using assms(2) by (simp add: node_teardown_unbound node_fixture_def)
qed

theorem teardown_key_unbound_witness:
  "\<exists>fr s'. node_setup example_extern connect_request fresh_state = (Inr fr, s') \<and>
     fr_key fr = None \<and>
     node_teardown example_extern connect_request fr s' = (Inl (UnboundLocalError ''key''), s') \<and>
     node_fixture example_extern connect_request fresh_state = (Inl (UnboundLocalError ''key''), s')"
proof -
  have "\<exists>fr s'. node_setup example_extern connect_request fresh_state = (Inr fr, s') \<and>
           fr_key fr = None \<and> calls s' = calls fresh_state \<and>
           (\<forall>s2. node_teardown example_extern connect_request fr s2
                   = (Inl (UnboundLocalError ''key''), s2)) \<and>
           node_fixture example_extern connect_request fresh_state
             = (Inl (UnboundLocalError ''key''), s')"
    by (rule teardown_key_unbound) (simp_all add: config_ok_module_store)
  then show ?thesis by auto
qed

subsection \<open>The configuration and the environment of commands\<close>

text \<open>
  Claim C10. The configuration of the node is a new dict object, but its \<^verbatim>\<open>"run"\<close> item
  is the very dict object the global \<^verbatim>\<open>config\<close> holds; after the fixture has yielded,
  that dict holds an \<^verbatim>\<open>env\<close> item with the \<^verbatim>\<open>PATH\<close> override, so the dict that
  \<^verbatim>\<open>local\<close> was configured from now carries the override, which it did not after
  module initialisation.
\<close>

theorem ssh_config_shares_run_dict:
  assumes "config_ok (heap s)" "node_setup x req s = (Inr fr, s')"
  shows "\<exists>r e. map_of (heap s ! config_addr) ''run'' = Some (PRef r) \<and>
           node_config (fr_node fr) \<noteq> config_addr \<and>
           map_of (heap s' ! node_config (fr_node fr)) ''run'' = Some (PRef r) \<and>
           map_of (heap s' ! config_addr) ''run'' = Some (PRef r) \<and>
           map_of (heap s' ! r) ''env'' = Some (PRef e) \<and>
           heap s' ! e = [(''PATH'', PStr ssh_path)] \<and>
           config_run_env (heap s') local_overrides = [(''PATH'', ssh_path)] \<and>
           (heap s = module_store \<longrightarrow> config_run_env (heap s) local_overrides = [])"
proof -
  from assms(2) obtain key name host data s1 where
    sel: "select_node x req s = (Inr (key, name, host, data), s1)" and
    mk: "make_ssh_config (heap s1) = (Inr (node_config (fr_node fr)), heap s')"
    by (rule node_setup_yields)
  have hs: "heap s1 = heap s"
    using select_node_heap[of x req s] sel by simp
  from assms(1) obtain r where r: "config_addr < length (heap s)"
    "map_of (heap s ! config_addr) ''run'' = Some (PRef r)" "r < length (heap s)"
    by (rule config_okE)
  from make_ssh_config_shares[OF r mk[unfolded hs]]
  have sh: "node_config (fr_node fr) = length (heap s)" "node_config (fr_node fr) \<noteq> config_addr"
    "length (heap s') = length (heap s) + 2"
    "map_of (heap s' ! config_addr) ''run'' = Some (PRef r)"
    "map_of (heap s' ! node_config (fr_node fr)) ''run'' = Some (PRef r)"
    "map_of (heap s' ! r) ''env'' = Some (PRef (Suc (length (heap s))))"
    "heap s' ! Suc (length (heap s)) = [(''PATH'', PStr ssh_path)]"
    by auto
  have env: "config_run_env (heap s') local_overrides = [(''PATH'', ssh_path)]"
    unfolding local_overrides_def
    by (rule config_run_env_path[OF _ sh(4) _ sh(6) _ sh(7)]) (use r sh(3) in simp_all)
  have init: "config_run_env module_store local_overrides = []"
    by (simp add: config_run_env_def module_store_def local_overrides_def config_addr_def)
  from r(2) sh env init show ?thesis by auto
qed

theorem ssh_config_shares_run_dict_witness:
  "config_run_env module_store local_overrides = [] \<and>
   (\<exists>fr s'. node_setup example_extern connect_request fresh_state = (Inr fr, s') \<and>
      node_config (fr_node fr) \<noteq> config_addr \<and>
      config_run_env (heap s') local_overrides = [(''PATH'', ssh_path)])"
proof -
  from connect_setup obtain fr s' where
    y: "node_setup example_extern connect_request fresh_state = (Inr fr, s')" by blast
  from ssh_config_shares_run_dict[OF _ y]
  show ?thesis using y by (auto simp: config_ok_module_store)
qed

lemma Node_local_cases:
  "Node_local n command kwargs = Inl TypeError \<or>
   Node_local n command kwargs =
     Inr \<lparr>rc_runner = Local, rc_config = node_config n, rc_command = command,
          rc_kwargs = [(''replace_env'', ABool False), (''env'', AEnv [])] @ kwargs\<rparr>"
  by (simp add: Node_local_def Context_run_def)

lemma generate_env_empty: "generate_env os_environ [] False = os_environ"
  by (simp add: generate_env_def)

text \<open>
  Claim C7. On a node the fixture yielded, a remote run works with the \<^verbatim>\<open>PATH\<close>
  override of the configuration as its \<^verbatim>\<open>env\<close>. A local run through \<^verbatim>\<open>Node.local\<close>,
  whatever its keyword arguments, either raises \<^verbatim>\<open>TypeError\<close> or is a call on this
  machine with \<^verbatim>\<open>replace_env=False\<close> and \<^verbatim>\<open>env={}\<close>: its \<^verbatim>\<open>env\<close> is empty, not the
  override, and the process it starts gets the environment of the test process
  unchanged, whatever the configuration says.
\<close>

theorem local_run_ignores_ssh_env:
  assumes "config_ok (heap s)" "node_setup x req s = (Inr fr, s')"
  shows "run_env (heap s') (Connection_run (fr_node fr) command []) = Inr [(''PATH'', ssh_path)] \<and>
         (\<forall>kwargs. Node_local (fr_node fr) command kwargs = Inl TypeError \<or>
            (\<exists>c. Node_local (fr_node fr) command kwargs = Inr c \<and> rc_runner c = Local \<and>
                 rc_command c = command \<and>
                 map_of (rc_kwargs c) ''replace_env'' = Some (ABool False) \<and>
                 map_of (rc_kwargs c) ''env'' = Some (AEnv []) \<and>
                 run_env (heap s') c = Inr [] \<and>
                 local_process_env os_environ config_replace_env (heap s') c = Inr os_environ))"
proof -
  from assms(2) obtain key name host data s1 where
    sel: "select_node x req s = (Inr (key, name, host, data), s1)" and
    mk: "make_ssh_config (heap s1) = (Inr (node_config (fr_node fr)), heap s')"
    by (rule node_setup_yields)
  have hs: "heap s1 = heap s"
    using select_node_heap[of x req s] sel by simp
  from assms(1) obtain r where r: "config_addr < length (heap s)"
    "map_of (heap s ! config_addr) ''run'' = Some (PRef r)" "r < length (heap s)"
    by (rule config_okE)
  from make_ssh_config_shares[OF r mk[unfolded hs]]
  have sh: "node_config (fr_node fr) = length (heap s)"
    "length (heap s') = length (heap s) + 2"
    "map_of (heap s' ! node_config (fr_node fr)) ''run'' = Some (PRef r)"
    "map_of (heap s' ! r) ''env'' = Some (PRef (Suc (length (heap s))))"
    "heap s' ! Suc (length (heap s)) = [(''PATH'', PStr ssh_path)]"
    by auto
  have "config_run_env (heap s') (node_config (fr_node fr)) = [(''PATH'', ssh_path)]"
    by (rule config_run_env_path[OF _ sh(3) _ sh(4) _ sh(5)]) (use r sh(1,2) in simp_all)
  then have remote: "run_env (heap s') (Connection_run (fr_node fr) command []) = Inr [(''PATH'', ssh_path)]"
    by (simp add: run_env_def Connection_run_def)
  have loc: "Node_local (fr_node fr) command kwargs = Inl TypeError \<or>
            (\<exists>c. Node_local (fr_node fr) command kwargs = Inr c \<and> rc_runner c = Local \<and>
                 rc_command c = command \<and>
                 map_of (rc_kwargs c) ''replace_env'' = Some (ABool False) \<and>
                 map_of (rc_kwargs c) ''env'' = Some (AEnv []) \<and>
                 run_env (heap s') c = Inr [] \<and>
                 local_process_env os_environ config_replace_env (heap s') c = Inr os_environ)" for kwargs
    using Node_local_cases[of "fr_node fr" command kwargs]
    by (auto simp: run_env_def generate_env_empty local_process_env_def run_replace_env_def)
  from remote loc show ?thesis by blast
qed

theorem local_run_ignores_ssh_env_witness:
  "\<exists>fr s'. node_setup example_extern connect_request fresh_state = (Inr fr, s') \<and>
     run_env (heap s') (Connection_run (fr_node fr) ''uname -a'' []) = Inr [(''PATH'', ssh_path)] \<and>
     (\<exists>c. Node_local (fr_node fr) ''uname -a'' [(''warn'', ABool True)] = Inr c \<and>
          run_env (heap s') c = Inr [] \<and>
          local_process_env [(''HOME'', ''/root'')] True (heap s') c = Inr [(''HOME'', ''/root'')])"
proof -
  from connect_setup obtain fr s' where
    y: "node_setup example_extern connect_request fresh_state = (Inr fr, s')" by blast
  have ne: "Node_local (fr_node fr) ''uname -a'' [(''warn'', ABool True)] \<noteq> Inl TypeError"
    by (simp add: Node_local_def)
  from local_run_ignores_ssh_env
         [OF _ y, where command = "''uname -a''" and os_environ = "[(''HOME'', ''/root'')]"
            and config_replace_env = True]
  have "run_env (heap s') (Connection_run (fr_node fr) ''uname -a'' []) = Inr [(''PATH'', ssh_path)]"
    and "\<forall>kwargs. Node_local (fr_node fr) ''uname -a'' kwargs = Inl TypeError \<or>
            (\<exists>c. Node_local (fr_node fr) ''uname -a'' kwargs = Inr c \<and>
                 run_env (heap s') c = Inr [] \<and>
                 local_process_env [(''HOME'', ''/root'')] True (heap s') c
                   = Inr [(''HOME'', ''/root'')])"
    by (auto simp: config_ok_module_store)
  with ne y show ?thesis by blast
qed

subsection \<open>Boot diagnostics\<close>

lemma wait_exponential_pos:
  "0 < first_wait b \<Longrightarrow> 0 < max_wait b \<Longrightarrow> 0 < wait_exponential b i"
  by (simp add: wait_exponential_def)

lemma retry_success: "result i = Inr v \<Longrightarrow> retry b seconds result millis i started = Some (Inr v, [])"
  by (subst retry.simps) simp

lemma retry_give_up:
  "result i = Inl err \<Longrightarrow> stop_after_delay seconds (started + millis i) \<Longrightarrow>
   retry b seconds result millis i started = Some (Inl err, [])"
  by (subst retry.simps) simp

lemma retry_again:
  "result i = Inl err \<Longrightarrow> \<not> stop_after_delay seconds (started + millis i) \<Longrightarrow>
   retry b seconds result millis (Suc i) (started + millis i + wait_exponential b i) = Some (r, sleeps) \<Longrightarrow>
   retry b seconds result millis i started = Some (r, wait_exponential b i # sleeps)"
  by (subst retry.simps) simp

lemma retry_characterised:
  assumes pos: "0 < first_wait b" "0 < max_wait b"
  shows "started + millis i = finished_at b millis i \<Longrightarrow>
    \<exists>k r. retry b seconds result millis i started
             = Some (r, map (wait_exponential b) [i..<i + k]) \<and>
          (\<forall>j. i \<le> j \<and> j < i + k \<longrightarrow>
             (\<exists>e. result j = Inl e) \<and> finished_at b millis j < seconds * 1000) \<and>
          (case r of
             Inr v \<Rightarrow> result (i + k) = Inr v
           | Inl e \<Rightarrow> result (i + k) = Inl e \<and> seconds * 1000 \<le> finished_at b millis (i + k))"
proof (induction "seconds * 1000 - started" arbitrary: i started rule: less_induct)
  case less
  have none: "\<forall>j. i \<le> j \<and> j < i + 0 \<longrightarrow>
             (\<exists>e. result j = Inl e) \<and> finished_at b millis j < seconds * 1000"
    by auto
  show ?case
  proof (cases "result i")
    case (Inr v)
    then have A: "retry b seconds result millis i started
                    = Some (Inr v, map (wait_exponential b) [i..<i + 0])"
      by (simp add: retry_success)
    have C: "case Inr v of
               Inr v \<Rightarrow> result (i + 0) = Inr v
             | Inl e \<Rightarrow> result (i + 0) = Inl e \<and> seconds * 1000 \<le> finished_at b millis (i + 0)"
      using Inr by simp
    show ?thesis
      by (rule exI[of _ 0], rule exI[of _ "Inr v"], intro conjI) (fact A, fact none, fact C)
  next
    case (Inl err)
    show ?thesis
    proof (cases "stop_after_delay seconds (started + millis i)")
      case True
      with Inl have A: "retry b seconds result millis i started
                          = Some (Inl err, map (wait_exponential b) [i..<i + 0])"
        by (simp add: retry_give_up)
      have C: "case Inl err of
               Inr v \<Rightarrow> result (i + 0) = Inr v
             | Inl e \<Rightarrow> result (i + 0) = Inl e \<and> seconds * 1000 \<le> finished_at b millis (i + 0)"
        using Inl True less.prems by (simp add: stop_after_delay_def)
      show ?thesis
        by (rule exI[of _ 0], rule exI[of _ "Inl err"], intro conjI) (fact A, fact none, fact C)
    next
      case False
      let ?started' = "started + millis i + wait_exponential b i"
      from False have lt: "finished_at b millis i < seconds * 1000"
        using less.prems by (simp add: stop_after_delay_def)
      have dec: "seconds * 1000 - ?started' < seconds * 1000 - started"
        using lt less.prems wait_exponential_pos[OF pos, of i] by simp
      have nxt: "?started' + millis (Suc i) = finished_at b millis (Suc i)"
        using less.prems by simp
      from less.hyps[OF dec nxt] obtain k r where
        r: "retry b seconds result millis (Suc i) ?started'
              = Some (r, map (wait_exponential b) [Suc i..<Suc i + k])"
        and f: "\<forall>j. Suc i \<le> j \<and> j < Suc i + k \<longrightarrow>
                 (\<exists>e. result j = Inl e) \<and> finished_at b millis j < seconds * 1000"
        and l: "case r of
                  Inr v \<Rightarrow> result (Suc i + k) = Inr v
                | Inl e \<Rightarrow> result (Suc i + k) = Inl e
                           \<and> seconds * 1000 \<le> finished_at b millis (Suc i + k)"
        by (elim exE conjE)
      have up: "[i..<i + Suc k] = i # [Suc i..<Suc i + k]"
        by (subst upt_rec) simp
      from retry_again[OF Inl False r]
      have A: "retry b seconds result millis i started
              = Some (r, map (wait_exponential b) [i..<i + Suc k])"
        unfolding up by simp
      have B: "\<forall>j. i \<le> j \<and> j < i + Suc k \<longrightarrow>
                 (\<exists>e. result j = Inl e) \<and> finished_at b millis j < seconds * 1000"
      proof (intro allI impI)
        fix j assume j: "i \<le> j \<and> j < i + Suc k"
        show "(\<exists>e. result j = Inl e) \<and> finished_at b millis j < seconds * 1000"
        proof (cases "j = i")
          case True
          with Inl lt show ?thesis by simp
        next
          case False
          with j have "Suc i \<le> j \<and> j < Suc i + k" by simp
          with f show ?thesis by (elim allE[of _ j]) (rule mp)
        qed
      qed
      have C: "case r of
                  Inr v \<Rightarrow> result (i + Suc k) = Inr v
                | Inl e \<Rightarrow> result (i + Suc k) = Inl e
                           \<and> seconds * 1000 \<le> finished_at b millis (i + Suc k)"
        using l by (cases r) simp_all
      show ?thesis
        by (rule exI[of _ "Suc k"], rule exI[of _ r], intro conjI) (fact A, fact B, fact C)
    qed
  qed
qed

text \<open>
  Claim C8, on the retry loop modelled from the spec. An invocation whose first two
  attempts fail and whose third succeeds returns the result of the third, after the
  first two waits of the backoff, provided the second failure comes less than 60 seconds
  after the first attempt began. With a backoff whose first wait and cap are not zero the
  loop always ends: it sleeps the waits of the backoff in order, each twice the one
  before up to the cap, after attempts that failed less than 60 seconds in; and it ends
  with the result of an attempt that succeeded, or with the failure of the last attempt
  made, which ended 60 seconds or more after the first one began.
\<close>

theorem get_boot_diagnostics_retries:
  "(\<forall>e0 e1 v. attempt a n 0 = Inl e0 \<and> attempt a n 1 = Inl e1 \<and> attempt a n 2 = Inr v \<and>
       finished_at b (run_millis a) 1 < 60000 \<longrightarrow>
       get_boot_diagnostics b a n
         = Some (Inr v, [wait_exponential b 0, wait_exponential b 1])) \<and>
   (0 < first_wait b \<and> 0 < max_wait b \<longrightarrow>
      (\<exists>k r. get_boot_diagnostics b a n = Some (r, map (wait_exponential b) [0..<k]) \<and>
         (\<forall>j<k. (\<exists>e. attempt a n j = Inl e) \<and> finished_at b (run_millis a) j < 60000) \<and>
         (case r of
            Inr v \<Rightarrow> attempt a n k = Inr v
          | Inl e \<Rightarrow> attempt a n k = Inl e \<and> 60000 \<le> finished_at b (run_millis a) k))) \<and>
   (\<forall>i. wait_exponential b (Suc i) = min (max_wait b) (2 * (first_wait b * 2 ^ i)))"
proof (intro conjI allI impI)
  fix e0 e1 v
  assume h: "attempt a n 0 = Inl e0 \<and> attempt a n 1 = Inl e1 \<and> attempt a n 2 = Inr v \<and>
       finished_at b (run_millis a) 1 < 60000"
  let ?m = "run_millis a"
  from h have f1: "?m 0 + wait_exponential b 0 + ?m 1 < 60000"
    by simp
  then have n0: "\<not> stop_after_delay 60 (0 + ?m 0)"
    and n1: "\<not> stop_after_delay 60 (0 + ?m 0 + wait_exponential b 0 + ?m 1)"
    by (simp_all add: stop_after_delay_def)
  from h have a2: "attempt a n (Suc (Suc 0)) = Inr v" and a1: "attempt a n (Suc 0) = Inl e1"
    and a0: "attempt a n 0 = Inl e0"
    by (simp_all add: numeral_2_eq_2)
  have "retry b 60 (attempt a n) ?m (Suc (Suc 0))
          (0 + ?m 0 + wait_exponential b 0 + ?m (Suc 0) + wait_exponential b (Suc 0))
        = Some (Inr v, [])"
    using a2 by (rule retry_success)
  from retry_again[OF a1 _ this] n1
  have "retry b 60 (attempt a n) ?m (Suc 0) (0 + ?m 0 + wait_exponential b 0)
        = Some (Inr v, [wait_exponential b (Suc 0)])"
    by simp
  from retry_again[OF a0 n0 this]
  show "get_boot_diagnostics b a n = Some (Inr v, [wait_exponential b 0, wait_exponential b 1])"
    by (simp add: get_boot_diagnostics_def)
next
  assume pos: "0 < first_wait b \<and> 0 < max_wait b"
  then have "\<exists>k r. retry b 60 (attempt a n) (run_millis a) 0 0
                 = Some (r, map (wait_exponential b) [0..<0 + k]) \<and>
          (\<forall>j. 0 \<le> j \<and> j < 0 + k \<longrightarrow>
             (\<exists>e. attempt a n j = Inl e) \<and> finished_at b (run_millis a) j < 60 * 1000) \<and>
          (case r of
             Inr v \<Rightarrow> attempt a n (0 + k) = Inr v
           | Inl e \<Rightarrow> attempt a n (0 + k) = Inl e
                      \<and> 60 * 1000 \<le> finished_at b (run_millis a) (0 + k))"
    by (intro retry_characterised) simp_all
  then obtain k r where
    A: "get_boot_diagnostics b a n = Some (r, map (wait_exponential b) [0..<k])"
    and B: "\<forall>j<k. (\<exists>e. attempt a n j = Inl e) \<and> finished_at b (run_millis a) j < 60000"
    and C: "case r of
             Inr v \<Rightarrow> attempt a n (0 + k) = Inr v
           | Inl e \<Rightarrow> attempt a n (0 + k) = Inl e
                      \<and> 60 * 1000 \<le> finished_at b (run_millis a) (0 + k)"
    by (auto simp: get_boot_diagnostics_def)
  from C have C': "case r of
            Inr v \<Rightarrow> attempt a n k = Inr v
          | Inl e \<Rightarrow> attempt a n k = Inl e \<and> 60000 \<le> finished_at b (run_millis a) k"
    by (cases r) simp_all
  show "\<exists>k r. get_boot_diagnostics b a n = Some (r, map (wait_exponential b) [0..<k]) \<and>
         (\<forall>j<k. (\<exists>e. attempt a n j = Inl e) \<and> finished_at b (run_millis a) j < 60000) \<and>
         (case r of
            Inr v \<Rightarrow> attempt a n k = Inr v
          | Inl e \<Rightarrow> attempt a n k = Inl e \<and> 60000 \<le> finished_at b (run_millis a) k)"
    by (rule exI[of _ k], rule exI[of _ r], intro conjI) (fact A, fact B, fact C')
next
  fix i
  show "wait_exponential b (Suc i) = min (max_wait b) (2 * (first_wait b * 2 ^ i))"
    by (simp add: wait_exponential_def mult.left_commute)
qed

theorem get_boot_diagnostics_retries_witness:
  "attempt flaky_attempts example_node 0 = Inl UnexpectedExit \<and>
   attempt flaky_attempts example_node 1 = Inl UnexpectedExit \<and>
   attempt flaky_attempts example_node 2 = Inr ''boot log'' \<and>
   finished_at example_backoff (run_millis flaky_attempts) 1 < 60000 \<and>
   get_boot_diagnostics example_backoff flaky_attempts example_node
     = Some (Inr ''boot log'', [1000, 2000]) \<and>
   (\<exists>k r. get_boot_diagnostics example_backoff flaky_attempts example_node
            = Some (r, map (wait_exponential example_backoff) [0..<k]))"
proof -
  have a: "attempt flaky_attempts example_node 0 = Inl UnexpectedExit"
    "attempt flaky_attempts example_node 1 = Inl UnexpectedExit"
    "attempt flaky_attempts example_node 2 = Inr ''boot log''"
    by (simp_all add: attempt_def boot_diagnostics_call_def Node_local_def)
  have f: "finished_at example_backoff (run_millis flaky_attempts) 1 < 60000"
    by (simp add: wait_exponential_def)
  have w: "wait_exponential example_backoff 0 = 1000" "wait_exponential example_backoff 1 = 2000"
    by (simp_all add: wait_exponential_def)
  note T = get_boot_diagnostics_retries[of flaky_attempts example_node example_backoff]
  from T[THEN conjunct1] a f
  have g: "get_boot_diagnostics example_backoff flaky_attempts example_node
          = Some (Inr ''boot log'', [wait_exponential example_backoff 0,
                                     wait_exponential example_backoff 1])"
    by blast
  have "0 < first_wait example_backoff \<and> 0 < max_wait example_backoff" by simp
  with T[THEN conjunct2, THEN conjunct1]
  have ex: "\<exists>k r. get_boot_diagnostics example_backoff flaky_attempts example_node
            = Some (r, map (wait_exponential example_backoff) [0..<k])"
    by blast
  from a f g ex show ?thesis unfolding w by (intro conjI)
qed

subsection \<open>Reading a remote file\<close>

lemma takeWhile_all: "\<forall>c \<in> set (takeWhile P xs). P c"
  by (auto dest: set_takeWhileD)

text \<open>What \<^verbatim>\<open>strip\<close> removes is whitespace on both sides, and what it leaves neither
  starts nor ends with whitespace.\<close>

lemma strip_decomposition:
  "\<exists>l r. s = l @ strip s @ r \<and> (\<forall>c \<in> set l. isspace c) \<and> (\<forall>c \<in> set r. isspace c) \<and>
         (strip s = [] \<or> (\<not> isspace (hd (strip s)) \<and> \<not> isspace (last (strip s))))"
proof -
  let ?l = "takeWhile isspace s"
  let ?m = "dropWhile isspace s"
  let ?r = "rev (takeWhile isspace (rev ?m))"
  let ?t = "rev (dropWhile isspace (rev ?m))"
  have t: "strip s = ?t" by (simp add: strip_def rstrip_def lstrip_def)
  have "rev ?m = takeWhile isspace (rev ?m) @ dropWhile isspace (rev ?m)" by simp
  then have "rev (rev ?m) = rev (takeWhile isspace (rev ?m) @ dropWhile isspace (rev ?m))"
    by (rule arg_cong)
  then have m: "?m = ?t @ ?r" by (simp del: takeWhile_dropWhile_id)
  have s: "s = ?l @ ?t @ ?r"
  proof -
    have "s = ?l @ ?m" by simp
    with m show ?thesis by metis
  qed
  have l: "\<forall>c \<in> set ?l. isspace c" by (rule takeWhile_all)
  have r: "\<forall>c \<in> set ?r. isspace c" using takeWhile_all[of isspace "rev ?m"] by simp
  have ends: "?t = [] \<or> (\<not> isspace (hd ?t) \<and> \<not> isspace (last ?t))"
  proof (cases "?t = []")
    case True
    then show ?thesis by simp
  next
    case False
    then have d: "dropWhile isspace (rev ?m) \<noteq> []" by simp
    then have "\<not> isspace (hd (dropWhile isspace (rev ?m)))" by (rule hd_dropWhile)
    with d have la: "\<not> isspace (last ?t)" by (simp add: last_rev)
    from False m have mne: "?m \<noteq> []" by (metis append_is_Nil_conv)
    then have "\<not> isspace (hd ?m)" by (rule hd_dropWhile)
    moreover from m False have "hd ?m = hd ?t" by (metis hd_append2)
    ultimately show ?thesis using la by simp
  qed
  from s l r ends show ?thesis unfolding t by blast
qed

text \<open>
  Claim C9, as the code has it. \<^verbatim>\<open>cat\<close> writes no file on either side. It raises when
  the remote file is missing or is not UTF-8; otherwise it returns the decoded content
  without the whitespace at its start and at its end: the content is \<open>l @ t @ r\<close> with
  \<open>t\<close> returned, \<open>l\<close> and \<open>r\<close> all whitespace, and \<open>t\<close> empty or with a first and a last
  character that are not whitespace.
\<close>

theorem cat_strips_both_ends:
  "snd (cat path fs) = fs \<and>
   (map_of (remote_files fs) path = None \<longrightarrow> fst (cat path fs) = Inl FileNotFoundError) \<and>
   (\<forall>content. map_of (remote_files fs) path = Some content \<longrightarrow>
      (utf8_decode content = None \<longrightarrow> fst (cat path fs) = Inl UnicodeDecodeError) \<and>
      (\<forall>decoded. utf8_decode content = Some decoded \<longrightarrow>
         (\<exists>l t r. fst (cat path fs) = Inr t \<and> decoded = l @ t @ r \<and>
            (\<forall>c \<in> set l. isspace c) \<and> (\<forall>c \<in> set r. isspace c) \<and>
            (t = [] \<or> (\<not> isspace (hd t) \<and> \<not> isspace (last t))))))"
proof (intro conjI allI impI)
  show "snd (cat path fs) = fs"
    by (simp add: cat_def Connection_get_def split: option.splits)
next
  assume "map_of (remote_files fs) path = None"
  then show "fst (cat path fs) = Inl FileNotFoundError"
    by (simp add: cat_def Connection_get_def)
next
  fix content
  assume "map_of (remote_files fs) path = Some content" "utf8_decode content = None"
  then show "fst (cat path fs) = Inl UnicodeDecodeError"
    by (simp add: cat_def Connection_get_def)
next
  fix content decoded
  assume "map_of (remote_files fs) path = Some content" "utf8_decode content = Some decoded"
  then have "fst (cat path fs) = Inr (strip decoded)"
    by (simp add: cat_def Connection_get_def)
  with strip_decomposition[of decoded]
  show "\<exists>l t r. fst (cat path fs) = Inr t \<and> decoded = l @ t @ r \<and>
            (\<forall>c \<in> set l. isspace c) \<and> (\<forall>c \<in> set r. isspace c) \<and>
            (t = [] \<or> (\<not> isspace (hd t) \<and> \<not> isspace (last t)))"
    by auto
qed

theorem cat_strips_both_ends_witness:
  "utf8_decode [32, 97, 10] = Some [32, 97, 10] \<and>
   snd (cat ''/etc/hostname''
          \<lparr>local_files = [], remote_files = [(''/etc/hostname'', [32, 97, 10])]\<rparr>)
     = \<lparr>local_files = [], remote_files = [(''/etc/hostname'', [32, 97, 10])]\<rparr> \<and>
   (\<exists>l t r. fst (cat ''/etc/hostname''
                   \<lparr>local_files = [], remote_files = [(''/etc/hostname'', [32, 97, 10])]\<rparr>)
               = Inr t \<and>
      [32, 97, 10] = l @ t @ r \<and> list_all isspace l \<and> list_all isspace r \<and>
      (t = [] \<or> (\<not> isspace (hd t) \<and> \<not> isspace (last t))))"
proof -
  have d: "utf8_decode [32, 97, 10] = Some [32, 97, 10]" by simp
  from cat_strips_both_ends
         [of "''/etc/hostname''"
             "\<lparr>local_files = [], remote_files = [(''/etc/hostname'', [32, 97, 10])]\<rparr>"]
  show ?thesis using d by (simp add: list_all_iff)
qed

text \<open>
  Claim C9 as stated fails: for the content \<^verbatim>\<open>" a"\<close>, trimming trailing whitespace
  leaves \<^verbatim>\<open>" a"\<close>, and \<^verbatim>\<open>cat\<close> returns \<^verbatim>\<open>"a"\<close>.
\<close>

theorem cat_trailing_only_counterexample:
  "utf8_decode [32, 97] = Some [32, 97] \<and>
   spec_fetch_text [32, 97] = Some [32, 97] \<and>
   fst (cat ''/etc/hostname''
          \<lparr>local_files = [], remote_files = [(''/etc/hostname'', [32, 97])]\<rparr>) = Inr [97]"
  by (simp add: cat_def Connection_get_def spec_fetch_text_def strip_def lstrip_def rstrip_def isspace_def)

end
